theory Spec2Isabelle
  imports Complex_Main "HOL-Library.AList"
begin

section \<open>Complot: the well-segment reconciliation of \<^verbatim>\<open>complot.py\<close>\<close>

text \<open>
  The development embeds the methods of the class \<^verbatim>\<open>SegmentPlot\<close> that build the
  per-segment table: \<^verbatim>\<open>get_info_per_well\<close>, \<^verbatim>\<open>get_packer\<close>, \<^verbatim>\<open>get_day_index\<close>,
  \<^verbatim>\<open>get_md\<close> and \<^verbatim>\<open>get_data\<close>.

  Conventions of the embedding.
  \<^item> A \<^verbatim>\<open>float64\<close> is a \<open>real\<close>: rounding, infinities and not-a-number are not
    modelled, except for the missing value that a left join writes into the columns
    \<^verbatim>\<open>CF\<close> and \<^verbatim>\<open>KH\<close>, which is a constructor of its own.
  \<^item> A data frame is the list of its rows, in row order, and carries pandas' default
    index: the label of a row is its position.
  \<^item> An exception is a value \<open>Inl e\<close> of the result; \<^verbatim>\<open>print\<close> is a list of warnings
    returned beside the result where a property speaks about it.
\<close>

subsection \<open>Exceptions\<close>

datatype error =
    ValueError string
  | IndexError
  | KeyError string
  | UnboundLocalError string
  | TypeError string
  | SystemExit

definition bind_err :: "error + 'a \<Rightarrow> ('a \<Rightarrow> error + 'b) \<Rightarrow> error + 'b" where
  "bind_err m f = (case m of Inl e \<Rightarrow> Inl e | Inr x \<Rightarrow> f x)"

subsection \<open>\<^verbatim>\<open>get_day_index\<close>\<close>

text \<open>
  \<^verbatim>\<open>np.argwhere(self.eclipse_days == day)\<close>, reshaped to one dimension: the positions
  that hold the day, in increasing order.
\<close>

definition argwhere_eq :: "real list \<Rightarrow> real \<Rightarrow> nat list" where
  "argwhere_eq eclipse_days day = filter (\<lambda>j. eclipse_days ! j = day) [0..<length eclipse_days]"

text \<open>
  \<^verbatim>\<open>np.argsort(dif)\<close>: the positions of \<open>dif\<close> ordered by their values. Equal values keep
  their order, as numpy's default sort does on the short arrays of report steps where it
  is an insertion sort.
\<close>

definition argsort :: "real list \<Rightarrow> nat list" where
  "argsort dif = sort_key (\<lambda>j. dif ! j) [0..<length dif]"

datatype warning = NoExactDay real

text \<open>
  The loop \<^verbatim>\<open>for i, day in enumerate(list_of_days)\<close>. The argument \<open>i\<close> is the position
  of the first day of the list still to do, \<open>day_idx\<close> the array being filled and \<open>out\<close>
  what was printed so far. \<^verbatim>\<open>idx[0]\<close> on an empty array raises \<^verbatim>\<open>IndexError\<close>.
\<close>

fun day_loop :: "real list \<Rightarrow> nat \<Rightarrow> real list \<Rightarrow> int list \<Rightarrow> warning list
    \<Rightarrow> error + (int list \<times> warning list)" where
  "day_loop eclipse_days i [] day_idx out = Inr (day_idx, out)"
| "day_loop eclipse_days i (day # rest) day_idx out =
     (let idx = argwhere_eq eclipse_days day in
      if length idx > 0 then
        day_loop eclipse_days (Suc i) rest (day_idx[i := int (hd idx)]) out
      else
        (let out' = out @ [NoExactDay day];
             dif = map (\<lambda>d. \<bar>d - day\<bar>) eclipse_days;
             idx' = argsort dif
         in case idx' of
              [] \<Rightarrow> Inl IndexError
            | j # _ \<Rightarrow> day_loop eclipse_days (Suc i) rest (day_idx[i := int j]) out'))"

definition get_day_index :: "real list \<Rightarrow> real list \<Rightarrow> error + (int list \<times> warning list)" where
  "get_day_index eclipse_days list_of_days =
     day_loop eclipse_days 0 list_of_days (replicate (length list_of_days) (- 1)) []"

subsection \<open>Python and numpy helpers\<close>

text \<open>\<^verbatim>\<open>str.split(sep)\<close> for a separator of one character.\<close>

fun split_on :: "char \<Rightarrow> string \<Rightarrow> string list" where
  "split_on c [] = [[]]"
| "split_on c (x # xs) =
     (if x = c then [] # split_on c xs
      else (case split_on c xs of
              [] \<Rightarrow> [[x]]
            | w # ws \<Rightarrow> (x # w) # ws))"

text \<open>\<^verbatim>\<open>str(n)\<close> for an integer.\<close>

definition digit_char :: "nat \<Rightarrow> char" where
  "digit_char d = ''0123456789'' ! d"

fun str_nat :: "nat \<Rightarrow> string" where
  "str_nat n = (if n < 10 then [digit_char n] else str_nat (n div 10) @ [digit_char (n mod 10)])"

declare str_nat.simps [simp del]

definition str_int :: "int \<Rightarrow> string" where
  "str_int n = (if n < 0 then CHR ''-'' # str_nat (nat (- n)) else str_nat (nat n))"

text \<open>
  \<^verbatim>\<open>np.arange(start, end + 1, 1)\<close> is the list \<open>[start..end]\<close>, empty when
  \<open>end < start\<close>. \<^verbatim>\<open>np.zeros(1)\<close>, the array chosen for the entry \<^verbatim>\<open>1*\<close>, is
  \<open>[0]\<close>: segment numbers are integers in the embedding.
\<close>

definition arange :: "int \<Rightarrow> int \<Rightarrow> int list" where
  "arange start stop = [start..stop - 1]"

text \<open>
  Indexing a sequence with an integer: a negative index counts from the end, an index out
  of range raises \<^verbatim>\<open>IndexError\<close>.
\<close>

definition py_index :: "'a list \<Rightarrow> int \<Rightarrow> error + 'a" where
  "py_index xs i =
     (if 0 \<le> i \<and> i < int (length xs) then Inr (xs ! nat i)
      else if i < 0 \<and> - int (length xs) \<le> i then Inr (xs ! nat (int (length xs) + i))
      else Inl IndexError)"

text \<open>Running a fallible function over a list, stopping at the first exception.\<close>

fun map_err :: "('a \<Rightarrow> error + 'b) \<Rightarrow> 'a list \<Rightarrow> error + 'b list" where
  "map_err f [] = Inr []"
| "map_err f (x # xs) =
     (case f x of
        Inl e \<Rightarrow> Inl e
      | Inr y \<Rightarrow> (case map_err f xs of Inl e \<Rightarrow> Inl e | Inr ys \<Rightarrow> Inr (y # ys)))"

subsection \<open>\<^verbatim>\<open>get_info_per_well\<close>\<close>

record information_row =
  info_WELL :: string
  info_LATERAL :: int
  info_TUBINGSEGMENT :: string
  info_DEVICESEGMENT :: string
  info_ANNULUSSEGMENT :: string
  info_DAYS :: string

definition unequal_segments_msg :: string where
  "unequal_segments_msg =
     ''Error : the number of device segments are '' @
     ''not the same with the number of tubing segments.''"

definition device_interval_msg :: string where
  "device_interval_msg =
     ''Error : Device Segment must be defined '' @ ''by interval segment number e.g 1-200''"

definition annulus_interval_msg :: string where
  "annulus_interval_msg =
     ''Error : Annulus Segment must be '' @ ''defined by interval segment number e.g 1-200''"

text \<open>
  \<^verbatim>\<open>int(s)\<close> and the conversion of a string to \<^verbatim>\<open>float64\<close> are builtins; the model
  takes them as the parameters \<open>int_of\<close> and \<open>float_of\<close>, \<open>None\<close> where the builtin
  raises \<^verbatim>\<open>ValueError\<close>.
\<close>

definition py_int :: "(string \<Rightarrow> int option) \<Rightarrow> string \<Rightarrow> error + int" where
  "py_int int_of s =
     (case int_of s of
        None \<Rightarrow> Inl (ValueError (''invalid literal for int() with base 10: '' @ s))
      | Some n \<Rightarrow> Inr n)"

definition py_float :: "(string \<Rightarrow> real option) \<Rightarrow> string \<Rightarrow> error + real" where
  "py_float float_of s =
     (case float_of s of
        None \<Rightarrow> Inl (ValueError (''could not convert string to float: '' @ s))
      | Some x \<Rightarrow> Inr x)"

text \<open>The bounds \<^verbatim>\<open>start\<close>, \<^verbatim>\<open>end\<close> of an entry split in two, as an array of segments.\<close>

definition interval_segments :: "(string \<Rightarrow> int option) \<Rightarrow> string list \<Rightarrow> error + int list" where
  "interval_segments int_of content =
     bind_err (py_int int_of (content ! 0)) (\<lambda>start.
     bind_err (py_int int_of (content ! 1)) (\<lambda>end.
     Inr (arange start (end + 1))))"

definition get_info_per_well ::
  "(string \<Rightarrow> int option) \<Rightarrow> (string \<Rightarrow> real option) \<Rightarrow> information_row list \<Rightarrow> string \<Rightarrow> int
     \<Rightarrow> error + (int list \<times> int list \<times> int list \<times> real list)" where
  "get_info_per_well int_of float_of information well lateral =
     (let info = filter (\<lambda>r. info_WELL r = well) information;
          info = filter (\<lambda>r. info_LATERAL r = lateral) info
      in case info of
           [] \<Rightarrow> Inl IndexError
         | row # _ \<Rightarrow>
      bind_err
        (let content = info_TUBINGSEGMENT row in
         if content = ''1*'' then Inr [0]
         else (let content = split_on CHR ''-'' content in
               if length content \<noteq> 2 then Inl SystemExit
               else interval_segments int_of content))
      (\<lambda>tubing_segment.
      bind_err
        (let content = info_DEVICESEGMENT row in
         if content = ''1*'' then Inr [0]
         else (let content = split_on CHR ''-'' content in
               bind_err
                 (if length content = 2 then interval_segments int_of content
                  else Inl (ValueError device_interval_msg))
               (\<lambda>device_segment.
                  if length tubing_segment \<noteq> length device_segment
                  then Inl (ValueError unequal_segments_msg)
                  else Inr device_segment)))
      (\<lambda>device_segment.
      bind_err
        (let content = info_ANNULUSSEGMENT row in
         if content = ''1*'' then Inr [0]
         else (let content = split_on CHR ''-'' content in
               if length content = 2 then interval_segments int_of content
               else Inl (ValueError annulus_interval_msg)))
      (\<lambda>annulus_segment.
      bind_err
        (let content = info_DAYS row in
         if content = ''1*'' then Inr [0]
         else map_err (py_float float_of) (split_on CHR ''-'' content))
      (\<lambda>my_days.
      Inr (tubing_segment, device_segment, annulus_segment, my_days))))))"

subsection \<open>The tables read from the schedule file\<close>

text \<open>
  A row of the \<^verbatim>\<open>WELSEGS\<close> content of a well, of its \<^verbatim>\<open>COMPSEGS\<close> content, and of the
  \<^verbatim>\<open>COMPDAT\<close> table. The tables are built by \<^verbatim>\<open>schedule_reader\<close>, which is not part of
  the sources at hand; they are arguments of the model.

  A cell of the columns \<^verbatim>\<open>CF\<close> and \<^verbatim>\<open>KH\<close> is a number, the missing value that a left
  join writes where nothing matches, or a text that \<^verbatim>\<open>astype(np.float64)\<close> rejects
  (such as the default marker \<^verbatim>\<open>1*\<close>). A text that the conversion accepts is represented by
  the number it converts to.
\<close>

record welseg =
  TUBINGSEGMENT :: int
  TUBINGOUTLET :: int
  TUBINGMD :: real
  TUBINGTVD :: real
  TUBINGID :: real

record compseg =
  cs_I :: int
  cs_J :: int
  cs_K :: int
  cs_STARTMD :: real
  cs_ENDMD :: real

datatype cell = Num real | NaN | Text string

record compdat_row =
  cd_WELL :: string
  cd_I :: int
  cd_J :: int
  cd_K :: int
  cd_CF :: cell
  cd_KH :: cell

text \<open>
  \<^verbatim>\<open>pd.DataFrame()\<close> has no column at all, which is not the same as a frame with columns
  and no row: selecting or joining on a column of the former raises \<^verbatim>\<open>KeyError\<close>.
\<close>

datatype 'a frame = NoColumns | Frame "'a list"

text \<open>
  \<^verbatim>\<open>for t in table: if t.well == well: ...\<close> acts on the first entry of the well.
\<close>

definition well_content :: "(string \<times> 'a) list \<Rightarrow> string \<Rightarrow> 'a option" where
  "well_content table well = map_option snd (find (\<lambda>t. fst t = well) table)"

subsection \<open>\<^verbatim>\<open>get_trajectory\<close> and \<^verbatim>\<open>get_packer\<close>\<close>

text \<open>The function returns \<^verbatim>\<open>None\<close> when no entry of the table is for the well.\<close>

definition get_trajectory :: "(string \<times> welseg list) list \<Rightarrow> string \<Rightarrow> int list
    \<Rightarrow> (real \<times> real) list option" where
  "get_trajectory welsegs_table well tubing_segment =
     (case well_content welsegs_table well of
        None \<Rightarrow> None
      | Some content \<Rightarrow>
          (let welsegs = filter (\<lambda>r. TUBINGSEGMENT r \<in> set tubing_segment) content;
               welsegs = map (\<lambda>r. (TUBINGMD r, TUBINGTVD r)) welsegs
           in Some (sort_key fst welsegs)))"

record zone_row =
  z_SEGMENT :: int
  z_MD :: real
  ANNULUS_ZONE :: int

text \<open>
  One turn of the loop \<^verbatim>\<open>for i in range(1, welsegs.shape[0])\<close> on the three arrays
  \<^verbatim>\<open>packer_md\<close>, \<^verbatim>\<open>packer_tvd\<close> and \<^verbatim>\<open>annulus_zone\<close>.
\<close>

definition packer_step :: "welseg list \<Rightarrow> nat \<Rightarrow> real list \<times> real list \<times> int list
    \<Rightarrow> real list \<times> real list \<times> int list" where
  "packer_step welsegs i st =
     (case st of (packer_md, packer_tvd, annulus_zone) \<Rightarrow>
        (case (if TUBINGOUTLET (welsegs ! i) \<noteq> TUBINGSEGMENT (welsegs ! (i - 1))
               then (packer_md @ [TUBINGMD (welsegs ! (i - 1)), TUBINGMD (welsegs ! i)],
                     packer_tvd @ [TUBINGTVD (welsegs ! (i - 1)), TUBINGTVD (welsegs ! i)],
                     annulus_zone[i := annulus_zone ! (i - 1) + 1])
               else (packer_md, packer_tvd, annulus_zone[i := annulus_zone ! (i - 1)]))
         of (packer_md, packer_tvd, annulus_zone) \<Rightarrow>
           if i = length welsegs - 1
           then (packer_md @ [TUBINGMD (welsegs ! i)], packer_tvd @ [TUBINGTVD (welsegs ! i)],
                 annulus_zone)
           else (packer_md, packer_tvd, annulus_zone)))"

text \<open>
  The result is the pair of frames \<^verbatim>\<open>(df_packer, df_annulus_zones)\<close>, a row of
  \<^verbatim>\<open>df_packer\<close> being \<^verbatim>\<open>(PACKERMD, PACKERTVD)\<close>; \<open>None\<close> is Python's \<^verbatim>\<open>None\<close>, returned
  when the table has no entry for the well. \<^verbatim>\<open>.iloc[0]\<close> on a selection without rows
  raises \<^verbatim>\<open>IndexError\<close>.
\<close>

definition get_packer :: "(string \<times> welseg list) list \<Rightarrow> string \<Rightarrow> int list
    \<Rightarrow> error + ((real \<times> real) frame \<times> zone_row frame) option" where
  "get_packer welsegs_table well annulus_segment =
     (if length annulus_segment > 1 then
        (case well_content welsegs_table well of
           None \<Rightarrow> Inr None
         | Some content \<Rightarrow>
             (let welsegs = filter (\<lambda>r. TUBINGSEGMENT r \<in> set annulus_segment) content in
              case welsegs of
                [] \<Rightarrow> Inl IndexError
              | first # _ \<Rightarrow>
                  (case fold (packer_step welsegs) [1..<length welsegs]
                          ([TUBINGMD first], [TUBINGTVD first], replicate (length welsegs) 1)
                   of (packer_md, packer_tvd, annulus_zone) \<Rightarrow>
                     Inr (Some (Frame (zip packer_md packer_tvd),
                                Frame (map (\<lambda>(r, z). \<lparr>z_SEGMENT = TUBINGSEGMENT r,
                                                       z_MD = TUBINGMD r, ANNULUS_ZONE = z\<rparr>)
                                         (zip welsegs annulus_zone)))))))
      else Inr (Some (NoColumns, NoColumns)))"

subsection \<open>\<^verbatim>\<open>get_md\<close>\<close>

text \<open>
  The walk over the completion rows that looks for the end of the lateral asked for.
  \<open>idx\<close> is the loop index, \<open>i_lateral\<close>, \<open>a_row\<close> and \<open>zrow\<close> the three variables of the
  loop; \<open>zrow\<close> is \<open>None\<close> as long as it was never assigned. The result is the value of
  \<open>a_row\<close> and \<open>zrow\<close> when the loop is left, by \<^verbatim>\<open>break\<close> or at its end.
\<close>

function branch_scan :: "compseg list \<Rightarrow> int \<Rightarrow> nat \<Rightarrow> int \<Rightarrow> nat \<Rightarrow> nat option
    \<Rightarrow> nat \<times> nat option" where
  "branch_scan compsegs lateral idx i_lateral a_row zrow =
     (if idx < length compsegs then
        (let end_md_branch = cs_ENDMD (compsegs ! idx) in
         if int idx < int (length compsegs) - 3 then
           (let start_1 = cs_STARTMD (compsegs ! (idx + 1));
                start_2 = cs_STARTMD (compsegs ! (idx + 2));
                start_3 = cs_STARTMD (compsegs ! (idx + 3))
            in if start_1 < end_md_branch \<and> start_2 < end_md_branch \<and> start_3 < end_md_branch
               then (if i_lateral + 1 = lateral then (a_row, Some idx)
                     else branch_scan compsegs lateral (Suc idx) (i_lateral + 1) (idx + 1) (Some idx))
               else branch_scan compsegs lateral (Suc idx) i_lateral a_row zrow)
         else (if i_lateral + 1 = lateral then (a_row, Some (length compsegs - 1))
               else branch_scan compsegs lateral (Suc idx) (i_lateral + 1) a_row
                      (Some (length compsegs - 1))))
      else (a_row, zrow))"
  by pat_completeness auto
termination
  by (relation "measure (\<lambda>(compsegs, lateral, idx, rest). length compsegs - idx)") auto

declare branch_scan.simps [simp del]

text \<open>
  \<^verbatim>\<open>frame.loc[a : z, :]\<close> selects by label and includes both ends; the labels are the
  positions, and a bound beyond the last label selects up to the last row.
\<close>

definition loc_slice :: "nat \<Rightarrow> nat \<Rightarrow> 'a list \<Rightarrow> 'a list" where
  "loc_slice a z rows = drop a (take (Suc z) rows)"

text \<open>The rows of the lateral: lines 651 to 678 of the method.\<close>

definition select_lateral :: "compseg list \<Rightarrow> int \<Rightarrow> error + compseg list" where
  "select_lateral compsegs lateral =
     (case branch_scan compsegs lateral 0 0 0 None of
        (a_row, None) \<Rightarrow> Inl (UnboundLocalError ''zrow'')
      | (a_row, Some zrow) \<Rightarrow> Inr (loc_slice a_row (zrow + 1) compsegs))"

text \<open>
  \<^verbatim>\<open>np.argwhere((start_md <= imd) & (imd <= end_md))\<close>, reshaped to one dimension.
\<close>

definition argwhere_between :: "real list \<Rightarrow> real list \<Rightarrow> real \<Rightarrow> nat list" where
  "argwhere_between start_md end_md imd =
     filter (\<lambda>j. start_md ! j \<le> imd \<and> imd \<le> end_md ! j) [0..<length start_md]"

record seg_row =
  s_WELL :: string
  Segment :: int
  s_MD :: real
  s_DIAMETER :: real
  s_STARTMD :: real
  s_ENDMD :: real
  s_I :: int
  s_J :: int
  s_K :: int

definition not_in_grid_msg :: "int \<Rightarrow> string" where
  "not_in_grid_msg segment = ''Error : Segment '' @ str_int segment @ '' is not'' @ '' found inside grid cells''"

text \<open>
  One turn of the loop \<^verbatim>\<open>for i, imd in enumerate(measured_depth)\<close>, on the row \<open>i\<close> of
  \<^verbatim>\<open>welsegs\<close> and its depth \<open>imd\<close>.
\<close>

definition merge_row :: "string \<Rightarrow> compseg list \<Rightarrow> welseg \<times> real \<Rightarrow> error + seg_row" where
  "merge_row well compsegs wi =
     (case wi of (w, imd) \<Rightarrow>
        (let start_md = map cs_STARTMD compsegs;
             end_md = map cs_ENDMD compsegs;
             comp_i = map cs_I compsegs;
             comp_j = map cs_J compsegs;
             comp_k = map cs_K compsegs;
             idx = argwhere_between start_md end_md imd
         in if length idx > 0 then
              (let idx = hd idx in
               Inr \<lparr>s_WELL = well, Segment = TUBINGSEGMENT w, s_MD = TUBINGMD w,
                     s_DIAMETER = TUBINGID w, s_STARTMD = start_md ! idx, s_ENDMD = end_md ! idx,
                     s_I = comp_i ! idx, s_J = comp_j ! idx, s_K = comp_k ! idx\<rparr>)
            else Inl (ValueError (not_in_grid_msg (TUBINGSEGMENT w)))))"

record md_row =
  m_WELL :: string
  m_Segment :: int
  m_MD :: real
  m_DIAMETER :: real
  m_STARTMD :: real
  m_ENDMD :: real
  m_I :: int
  m_J :: int
  m_K :: int
  m_CF :: cell
  m_KH :: cell

text \<open>
  \<^verbatim>\<open>astype(np.float64)\<close> on a column raises when a cell is a text that is no number, and
  otherwise leaves numbers and missing values as they are.
\<close>

definition is_text :: "cell \<Rightarrow> bool" where
  "is_text c = (case c of Text s \<Rightarrow> True | _ \<Rightarrow> False)"

definition astype_float64 :: "cell list \<Rightarrow> error + cell list" where
  "astype_float64 cells =
     (case find is_text cells of
        Some (Text s) \<Rightarrow> Inl (ValueError (''could not convert string to float: '' @ s))
      | _ \<Rightarrow> Inr cells)"

text \<open>
  The two blocks \<^verbatim>\<open>try: compdat[c] = compdat[c].astype(np.float64) except: pass\<close>.
\<close>

definition compdat_astype :: "compdat_row list \<Rightarrow> compdat_row list" where
  "compdat_astype compdat =
     (let compdat = (case astype_float64 (map cd_CF compdat) of
                       Inl e \<Rightarrow> compdat
                     | Inr cells \<Rightarrow> map (\<lambda>(c, v). c\<lparr>cd_CF := v\<rparr>) (zip compdat cells));
          compdat = (case astype_float64 (map cd_KH compdat) of
                       Inl e \<Rightarrow> compdat
                     | Inr cells \<Rightarrow> map (\<lambda>(c, v). c\<lparr>cd_KH := v\<rparr>) (zip compdat cells))
      in compdat)"

text \<open>
  \<^verbatim>\<open>pd.merge(welsegs, compdat, how="left", on I, J, K)\<close>: every row of \<^verbatim>\<open>welsegs\<close>, in
  order, once for each row of \<^verbatim>\<open>compdat\<close> with the same cell, and once with missing values
  when there is none.
\<close>

definition joined :: "seg_row \<Rightarrow> cell \<Rightarrow> cell \<Rightarrow> md_row" where
  "joined w cf kh =
     \<lparr>m_WELL = s_WELL w, m_Segment = Segment w, m_MD = s_MD w, m_DIAMETER = s_DIAMETER w,
      m_STARTMD = s_STARTMD w, m_ENDMD = s_ENDMD w, m_I = s_I w, m_J = s_J w, m_K = s_K w,
      m_CF = cf, m_KH = kh\<rparr>"

definition merge_left :: "seg_row list \<Rightarrow> compdat_row list \<Rightarrow> md_row list" where
  "merge_left welsegs compdat =
     concat (map (\<lambda>w.
        (case filter (\<lambda>c. cd_I c = s_I w \<and> cd_J c = s_J w \<and> cd_K c = s_K w) compdat of
           [] \<Rightarrow> [joined w NaN NaN]
         | matches \<Rightarrow> map (\<lambda>c. joined w (cd_CF c) (cd_KH c)) matches)) welsegs)"

definition device_interval :: real where
  "device_interval = 0.1"

definition annulus_interval :: real where
  "annulus_interval = 0.1"

text \<open>
  The depths at which the segments of a section are looked up in the completion rows.
\<close>

definition measured_depths :: "string \<Rightarrow> welseg list \<Rightarrow> error + real list" where
  "measured_depths section welsegs =
     (if section = ''tubing'' then Inr (map TUBINGMD welsegs)
      else if section = ''device'' then Inr (map (\<lambda>r. TUBINGMD r - device_interval) welsegs)
      else if section = ''annulus'' then Inr (map (\<lambda>r. TUBINGMD r - annulus_interval) welsegs)
      else Inl (UnboundLocalError ''measured_depth''))"

text \<open>
  The method, called with the default intervals as \<^verbatim>\<open>get_data\<close> does. A variable read
  before any assignment (no entry for the well, a section that is none of the three)
  raises \<^verbatim>\<open>UnboundLocalError\<close>.
\<close>

definition get_md :: "(string \<times> welseg list) list \<Rightarrow> (string \<times> compseg list) list
    \<Rightarrow> compdat_row list \<Rightarrow> string \<Rightarrow> int list \<Rightarrow> int \<Rightarrow> string \<Rightarrow> error + md_row list" where
  "get_md welsegs_table compsegs_table compdat_table well segment lateral section =
     (case well_content welsegs_table well of
        None \<Rightarrow> Inl (UnboundLocalError ''welsegs'')
      | Some content \<Rightarrow>
     (let welsegs = filter (\<lambda>r. TUBINGSEGMENT r \<in> set segment) content in
      bind_err
        (case well_content compsegs_table well of
           None \<Rightarrow> Inl (UnboundLocalError ''compsegs'')
         | Some compsegs \<Rightarrow> select_lateral compsegs lateral)
      (\<lambda>compsegs.
      bind_err (measured_depths section welsegs)
      (\<lambda>measured_depth.
      bind_err (map_err (merge_row well compsegs) (zip welsegs measured_depth))
      (\<lambda>welsegs.
        (let compdat = filter (\<lambda>c. cd_WELL c = well) compdat_table;
             compdat = compdat_astype compdat
         in Inr (merge_left welsegs compdat)))))))"

subsection \<open>\<^verbatim>\<open>get_data\<close>\<close>

text \<open>
  The fields of the object that \<^verbatim>\<open>get_data\<close> reads. \<open>eclipse\<close> is the summary file:
  \<^verbatim>\<open>numpy_vector(key)\<close> is the vector of the key, over the report steps, and raises
  \<^verbatim>\<open>KeyError\<close> when the file has no such key. A date is a number.
\<close>

record segment_plot =
  welsegs_table :: "(string \<times> welseg list) list"
  compsegs_table :: "(string \<times> compseg list) list"
  compdat_table :: "compdat_row list"
  eclipse :: "string \<Rightarrow> real list option"
  eclipse_dates :: "nat list"
  eclipse_days :: "real list"
  tubing_segment :: "int list"
  device_segment :: "int list"
  annulus_segment :: "int list"
  my_days_idx :: "int list"
  df_annulus_zone :: "zone_row frame"

text \<open>
  A row of the frames \<^verbatim>\<open>data_frame\<close> and \<^verbatim>\<open>df_all\<close>: the eleven columns of \<^verbatim>\<open>header\<close>, and
  in \<open>cols\<close> the numeric columns added afterwards (the keywords, \<^verbatim>\<open>SWCT\<close>, \<^verbatim>\<open>SGOR\<close>), by
  name and in the order of their creation. All the frames of one call get the same
  columns, since they all loop over \<^verbatim>\<open>kw_valid\<close>.
\<close>

record out_row =
  WELL :: string
  SECTION :: string
  DATE :: nat
  SEGMENT :: int
  MD :: real
  STARTMD :: real
  ENDMD :: real
  CF :: cell
  KH :: cell
  THICKNESS :: real
  DIAMETER :: real
  cols :: "(string \<times> real) list"

definition numpy_vector :: "segment_plot \<Rightarrow> string \<Rightarrow> error + real list" where
  "numpy_vector self key =
     (case eclipse self key of None \<Rightarrow> Inl (KeyError key) | Some prof \<Rightarrow> Inr prof)"

definition list_keywords :: "string list" where
  "list_keywords = [''SPR'', ''SPRD'', ''SOFR'', ''SWFR'', ''SGFRF'']"

definition kw_valid :: "segment_plot \<Rightarrow> string \<Rightarrow> string list" where
  "kw_valid self well =
     filter (\<lambda>keyword. eclipse self (keyword @ '':'' @ well @ '':'' @ str_int 1) \<noteq> None)
       list_keywords"

text \<open>
  \<^verbatim>\<open>for i, seg in enumerate(np_segment): value[i] = numpy_vector(...)[idx]\<close>.
\<close>

definition segment_values :: "segment_plot \<Rightarrow> string \<Rightarrow> string \<Rightarrow> int \<Rightarrow> int list
    \<Rightarrow> error + real list" where
  "segment_values self well keyword idx np_segment =
     map_err (\<lambda>seg. bind_err (numpy_vector self (keyword @ '':'' @ well @ '':'' @ str_int seg))
                       (\<lambda>prof. py_index prof idx)) np_segment"

text \<open>The column \<open>name\<close> of a frame, \<open>None\<close> when the frame has no such column.\<close>

fun those_values :: "'a option list \<Rightarrow> 'a list option" where
  "those_values [] = Some []"
| "those_values (x # xs) =
     (case x of
        None \<Rightarrow> None
      | Some y \<Rightarrow> (case those_values xs of None \<Rightarrow> None | Some ys \<Rightarrow> Some (y # ys)))"

definition column :: "string \<Rightarrow> out_row list \<Rightarrow> real list option" where
  "column name df = those_values (map (\<lambda>r. map_of (cols r) name) df)"

definition column_err :: "string \<Rightarrow> out_row list \<Rightarrow> error + real list" where
  "column_err name df = (case column name df of None \<Rightarrow> Inl (KeyError name) | Some v \<Rightarrow> Inr v)"

text \<open>
  \<^verbatim>\<open>data_frame[name] = value\<close> for an array: the lengths must agree.
\<close>

definition set_column :: "string \<Rightarrow> real list \<Rightarrow> out_row list \<Rightarrow> error + out_row list" where
  "set_column name value df =
     (if length value = length df
      then Inr (map (\<lambda>(r, v). r\<lparr>cols := AList.update name v (cols r)\<rparr>) (zip df value))
      else Inl (ValueError ''Length of values does not match length of index''))"

text \<open>
  The eleven header columns of a section at one report step: the two \<^verbatim>\<open>np.full\<close> arrays
  of \<open>n\<close> entries, the date, \<^verbatim>\<open>np_segment\<close> and the columns of the frame of \<^verbatim>\<open>get_md\<close>,
  put side by side by \<^verbatim>\<open>np.column_stack\<close>, which raises when the lengths differ.
\<close>

definition header_frame :: "segment_plot \<Rightarrow> string \<Rightarrow> int \<Rightarrow> string \<Rightarrow> string \<Rightarrow> nat
    \<Rightarrow> int list \<Rightarrow> int \<Rightarrow> error + out_row list" where
  "header_frame self well lateral np_section section n np_segment idx =
     bind_err (py_index (eclipse_dates self) idx) (\<lambda>np_date.
     bind_err (get_md (welsegs_table self) (compsegs_table self) (compdat_table self)
                 well np_segment lateral section) (\<lambda>welsegs.
     if length np_segment = n \<and> length welsegs = n then
       Inr (map (\<lambda>(seg, w).
              \<lparr>WELL = well, SECTION = np_section, DATE = np_date, SEGMENT = seg,
               MD = m_MD w, STARTMD = m_STARTMD w, ENDMD = m_ENDMD w, CF = m_CF w, KH = m_KH w,
               THICKNESS = m_ENDMD w - m_STARTMD w, DIAMETER = m_DIAMETER w, cols = []\<rparr>)
            (zip np_segment welsegs))
     else Inl (ValueError ''all the input array dimensions must match exactly'')))"

text \<open>
  The loop \<^verbatim>\<open>for keyword in self.kw_valid\<close> of a section. \<open>value_of\<close> gives the array
  assigned to the column of a keyword, \<open>None\<close> when the section assigns nothing for it.
\<close>

fun add_keywords :: "(string \<Rightarrow> out_row list \<Rightarrow> error + real list option) \<Rightarrow> string list
    \<Rightarrow> out_row list \<Rightarrow> error + out_row list" where
  "add_keywords value_of [] data_frame = Inr data_frame"
| "add_keywords value_of (keyword # rest) data_frame =
     bind_err (value_of keyword data_frame) (\<lambda>value.
       case value of
         None \<Rightarrow> add_keywords value_of rest data_frame
       | Some v \<Rightarrow> bind_err (set_column keyword v data_frame) (add_keywords value_of rest))"

text \<open>
  Water cut and gas-oil ratio. Each is computed in a \<^verbatim>\<open>try\<close> block whose handler does
  nothing: a frame without one of the columns read is left as it is.
\<close>

definition min_rate :: real where
  "min_rate = 0.1"

definition swct :: "real \<Rightarrow> real \<Rightarrow> real" where
  "swct swfr sofr =
     (if \<bar>swfr\<bar> + \<bar>sofr\<bar> < min_rate then 0.0
      else \<bar>swfr\<bar> / (\<bar>swfr\<bar> + \<bar>sofr\<bar> + 0.00001))"

definition sgor :: "real \<Rightarrow> real \<Rightarrow> real" where
  "sgor sgfrf sofr = \<bar>sgfrf\<bar> / (\<bar>sofr\<bar> + 0.00001)"

definition add_swct :: "out_row list \<Rightarrow> out_row list" where
  "add_swct data_frame =
     (case column ''SWFR'' data_frame of
        None \<Rightarrow> data_frame
      | Some swfr \<Rightarrow>
          (case column ''SOFR'' data_frame of
             None \<Rightarrow> data_frame
           | Some sofr \<Rightarrow>
               (case set_column ''SWCT'' (map (\<lambda>(water, oil). swct water oil) (zip swfr sofr)) data_frame of
                  Inl e \<Rightarrow> data_frame
                | Inr df \<Rightarrow> df)))"

definition add_sgor :: "out_row list \<Rightarrow> out_row list" where
  "add_sgor data_frame =
     (case column ''SGFRF'' data_frame of
        None \<Rightarrow> data_frame
      | Some sgfrf \<Rightarrow>
          (case column ''SOFR'' data_frame of
             None \<Rightarrow> data_frame
           | Some sofr \<Rightarrow>
               (case set_column ''SGOR'' (map (\<lambda>(gas, oil). sgor gas oil) (zip sgfrf sofr)) data_frame of
                  Inl e \<Rightarrow> data_frame
                | Inr df \<Rightarrow> df)))"

text \<open>
  \<^verbatim>\<open>df_all\<close> is a local variable, \<open>None\<close> until its first assignment.
  \<^verbatim>\<open>pd.concat([df_all, data_frame])\<close> reads it.
\<close>

definition concat_df :: "out_row list option \<Rightarrow> out_row list \<Rightarrow> error + out_row list option" where
  "concat_df df_all data_frame =
     (case df_all of
        None \<Rightarrow> Inl (UnboundLocalError ''df_all'')
      | Some df \<Rightarrow> Inr (Some (df @ data_frame)))"

subsubsection \<open>Device section\<close>

definition device_frame :: "segment_plot \<Rightarrow> string \<Rightarrow> int \<Rightarrow> int \<Rightarrow> error + out_row list" where
  "device_frame self well lateral idx =
     (let n_device = length (device_segment self);
          np_segment = device_segment self
      in bind_err (header_frame self well lateral ''Device'' ''device'' n_device np_segment idx)
           (\<lambda>data_frame.
         bind_err (add_keywords
                     (\<lambda>keyword df.
                        if keyword = ''SPR'' \<or> keyword = ''SPRD'' \<or> keyword = ''SGFRF''
                           \<or> keyword = ''SOFR'' \<or> keyword = ''SWFR''
                        then map_sum id Some (segment_values self well keyword idx np_segment)
                        else Inr None)
                     (kw_valid self well) data_frame)
           (\<lambda>data_frame. Inr (add_sgor (add_swct data_frame)))))"

text \<open>
  The loop \<^verbatim>\<open>for i_x, idx in enumerate(self.my_days_idx)\<close> of the device section; \<open>i_x\<close>
  is the position of the first index of the list still to do.
\<close>

fun device_loop :: "segment_plot \<Rightarrow> string \<Rightarrow> int \<Rightarrow> nat \<Rightarrow> int list \<Rightarrow> out_row list option
    \<Rightarrow> error + out_row list option" where
  "device_loop self well lateral i_x [] df_all = Inr df_all"
| "device_loop self well lateral i_x (idx # rest) df_all =
     bind_err (device_frame self well lateral idx) (\<lambda>data_frame.
     bind_err (if i_x = 0 then Inr (Some data_frame) else concat_df df_all data_frame)
       (device_loop self well lateral (Suc i_x) rest))"

subsubsection \<open>Tubing section\<close>

text \<open>
  The loop \<^verbatim>\<open>for isq in range(len(rate_inflow) - 1, -1, -1)\<close> on the array \<open>value\<close>. The
  second argument is \<open>isq + 1\<close>, the number of turns still to do. Reading or writing
  \<open>value\<close> out of its range raises \<^verbatim>\<open>IndexError\<close>.
\<close>

fun cum_loop :: "real list \<Rightarrow> nat \<Rightarrow> real list \<Rightarrow> error + real list" where
  "cum_loop rate_inflow 0 value = Inr value"
| "cum_loop rate_inflow (Suc isq) value =
     (if isq = length rate_inflow - 1 then
        (if isq < length value
         then cum_loop rate_inflow isq (value[isq := rate_inflow ! isq])
         else Inl IndexError)
      else
        (if isq + 1 < length value
         then cum_loop rate_inflow isq (value[isq := value ! (isq + 1) + rate_inflow ! isq])
         else Inl IndexError))"

text \<open>The rows of \<^verbatim>\<open>df_all\<close> of one date and one section.\<close>

definition related :: "out_row list \<Rightarrow> nat \<Rightarrow> string \<Rightarrow> out_row list" where
  "related df_all date section =
     (let df_related = filter (\<lambda>r. DATE r = date) df_all
      in filter (\<lambda>r. SECTION r = section) df_related)"

text \<open>The array assigned to the column of a keyword in the tubing section.\<close>

definition tubing_values :: "segment_plot \<Rightarrow> string \<Rightarrow> int \<Rightarrow> out_row list option \<Rightarrow> int list
    \<Rightarrow> string \<Rightarrow> error + real list" where
  "tubing_values self well idx df_all np_segment keyword =
     (let value = replicate (length np_segment) 0 in
      if keyword \<noteq> ''SGFRF'' then segment_values self well keyword idx np_segment
      else
        (case df_all of
           None \<Rightarrow> Inl (UnboundLocalError ''df_all'')
         | Some df \<Rightarrow>
             bind_err (py_index (eclipse_dates self) idx) (\<lambda>date.
             bind_err (column_err keyword (related df date ''Device'')) (\<lambda>rate_inflow.
             cum_loop rate_inflow (length rate_inflow) value))))"

definition tubing_frame :: "segment_plot \<Rightarrow> string \<Rightarrow> int \<Rightarrow> out_row list option \<Rightarrow> int
    \<Rightarrow> error + out_row list" where
  "tubing_frame self well lateral df_all idx =
     (let n_tubing = length (tubing_segment self);
          np_segment = tubing_segment self
      in bind_err (header_frame self well lateral ''Tubing'' ''tubing'' n_tubing np_segment idx)
           (\<lambda>data_frame.
         bind_err (add_keywords
                     (\<lambda>keyword df.
                        map_sum id Some (tubing_values self well idx df_all np_segment keyword))
                     (kw_valid self well) data_frame)
           (\<lambda>data_frame. Inr (add_sgor (add_swct data_frame)))))"

fun tubing_loop :: "segment_plot \<Rightarrow> string \<Rightarrow> int \<Rightarrow> int list \<Rightarrow> out_row list option
    \<Rightarrow> error + out_row list option" where
  "tubing_loop self well lateral [] df_all = Inr df_all"
| "tubing_loop self well lateral (idx # rest) df_all =
     bind_err (tubing_frame self well lateral df_all idx) (\<lambda>data_frame.
     bind_err (concat_df df_all data_frame) (tubing_loop self well lateral rest))"

subsubsection \<open>Annulus section\<close>

definition annulus_frame :: "segment_plot \<Rightarrow> string \<Rightarrow> int \<Rightarrow> int \<Rightarrow> error + out_row list" where
  "annulus_frame self well lateral idx =
     (let n_annulus = length (annulus_segment self);
          np_segment = annulus_segment self
      in bind_err (header_frame self well lateral ''Annulus'' ''annulus'' n_annulus np_segment idx)
           (\<lambda>data_frame.
         bind_err (add_keywords
                     (\<lambda>keyword df.
                        map_sum id Some (segment_values self well keyword idx np_segment))
                     (kw_valid self well) data_frame)
           (\<lambda>data_frame. Inr (add_sgor (add_swct data_frame)))))"

fun annulus_loop :: "segment_plot \<Rightarrow> string \<Rightarrow> int \<Rightarrow> int list \<Rightarrow> out_row list option
    \<Rightarrow> error + out_row list option" where
  "annulus_loop self well lateral [] df_all = Inr df_all"
| "annulus_loop self well lateral (idx # rest) df_all =
     bind_err (annulus_frame self well lateral idx) (\<lambda>data_frame.
     bind_err (concat_df df_all data_frame) (annulus_loop self well lateral rest))"

subsubsection \<open>The columns \<^verbatim>\<open>CF\<close> and \<^verbatim>\<open>KH\<close> of the whole table\<close>

text \<open>
  \<^verbatim>\<open>try: df_all[c] = df_all[c].astype(np.float64) except: df_all[c] = 1.0e-10\<close>: when the
  conversion raises, the scalar is assigned to the column, that is to every row. The
  scalar \<^verbatim>\<open>1.0e-10\<close> is written \<open>0.0000000001\<close>.
\<close>

definition astype_or_default :: "cell list \<Rightarrow> cell list" where
  "astype_or_default cells =
     (case astype_float64 cells of
        Inl e \<Rightarrow> replicate (length cells) (Num 0.0000000001)
      | Inr converted \<Rightarrow> converted)"

definition convert_cf_kh :: "out_row list \<Rightarrow> out_row list" where
  "convert_cf_kh df_all =
     (let df_all = map (\<lambda>(r, v). r\<lparr>CF := v\<rparr>) (zip df_all (astype_or_default (map CF df_all)));
          df_all = map (\<lambda>(r, v). r\<lparr>KH := v\<rparr>) (zip df_all (astype_or_default (map KH df_all)))
      in df_all)"

subsubsection \<open>Reservoir section\<close>

text \<open>
  The array assigned to the column of a keyword in the reservoir section. With one
  annulus segment it is the difference of the tubing column and the same column moved
  up by one place, a zero put at the end. Otherwise the rates come from the device and
  annulus rows, joined with \<^verbatim>\<open>self.df_annulus_zone\<close> on its column \<^verbatim>\<open>MD\<close>, which raises
  \<^verbatim>\<open>KeyError\<close> on a frame without columns; the computation that follows the join (lines
  1087 to 1136) is the parameter \<open>annulus_inflow\<close> of the model.
\<close>

definition reservoir_values ::
  "(out_row list \<Rightarrow> zone_row list \<Rightarrow> nat \<Rightarrow> string \<Rightarrow> out_row list \<Rightarrow> error + real list)
     \<Rightarrow> segment_plot \<Rightarrow> out_row list \<Rightarrow> nat \<Rightarrow> string \<Rightarrow> out_row list
     \<Rightarrow> error + real list option" where
  "reservoir_values annulus_inflow self df_all date keyword data_frame =
     (let n_annulus = length (annulus_segment self) in
      if keyword = ''SPR'' \<or> keyword = ''SPRD'' then
        Inr (Some (replicate (length data_frame) 0.0))
      else if keyword = ''SOFR'' \<or> keyword = ''SWFR'' \<or> keyword = ''SGFRF'' then
        (if n_annulus = 1 then
           bind_err (column_err keyword (related df_all date ''Tubing'')) (\<lambda>rate_inflow.
             (let rate_upstream = drop 1 rate_inflow;
                  rate_upstream = rate_upstream @ [0.0]
              in Inr (Some (map (\<lambda>(a, b). a - b) (zip rate_inflow rate_upstream)))))
         else
           (case df_annulus_zone self of
              NoColumns \<Rightarrow> Inl (KeyError ''MD'')
            | Frame zones \<Rightarrow>
                map_sum id Some (annulus_inflow df_all zones date keyword data_frame)))
      else Inr None)"

definition reservoir_frame ::
  "(out_row list \<Rightarrow> zone_row list \<Rightarrow> nat \<Rightarrow> string \<Rightarrow> out_row list \<Rightarrow> error + real list)
     \<Rightarrow> segment_plot \<Rightarrow> string \<Rightarrow> int \<Rightarrow> out_row list \<Rightarrow> int \<Rightarrow> error + out_row list" where
  "reservoir_frame annulus_inflow self well lateral df_all idx =
     (let n_device = length (device_segment self);
          np_segment = tubing_segment self
      in bind_err (py_index (eclipse_dates self) idx) (\<lambda>date.
         bind_err (header_frame self well lateral ''Reservoir'' ''tubing'' n_device np_segment idx)
           (\<lambda>data_frame.
         bind_err (add_keywords (reservoir_values annulus_inflow self df_all date)
                     (kw_valid self well) data_frame)
           (\<lambda>data_frame. Inr (add_sgor (add_swct data_frame))))))"

fun reservoir_loop ::
  "(out_row list \<Rightarrow> zone_row list \<Rightarrow> nat \<Rightarrow> string \<Rightarrow> out_row list \<Rightarrow> error + real list)
     \<Rightarrow> segment_plot \<Rightarrow> string \<Rightarrow> int \<Rightarrow> int list \<Rightarrow> out_row list \<Rightarrow> error + out_row list" where
  "reservoir_loop annulus_inflow self well lateral [] df_all = Inr df_all"
| "reservoir_loop annulus_inflow self well lateral (idx # rest) df_all =
     bind_err (reservoir_frame annulus_inflow self well lateral df_all idx) (\<lambda>data_frame.
       reservoir_loop annulus_inflow self well lateral rest (df_all @ data_frame))"

subsubsection \<open>The method\<close>

text \<open>
  The result is \<^verbatim>\<open>self.df_output\<close>. The columns computed from it at the end of the method
  (area, velocities, rates per length) are not part of the model: they are assigned in
  \<^verbatim>\<open>try\<close> blocks, raise nothing and change no other column.
\<close>

definition get_data ::
  "(out_row list \<Rightarrow> zone_row list \<Rightarrow> nat \<Rightarrow> string \<Rightarrow> out_row list \<Rightarrow> error + real list)
     \<Rightarrow> segment_plot \<Rightarrow> string \<Rightarrow> int \<Rightarrow> error + out_row list" where
  "get_data annulus_inflow self well lateral =
     (let n_device = length (device_segment self);
          n_annulus = length (annulus_segment self)
      in bind_err (if n_device > 1
                   then device_loop self well lateral 0 (my_days_idx self) None
                   else Inr None) (\<lambda>df_all.
         bind_err (tubing_loop self well lateral (my_days_idx self) df_all) (\<lambda>df_all.
         bind_err (if n_annulus > 1
                   then annulus_loop self well lateral (my_days_idx self) df_all
                   else Inr df_all) (\<lambda>df_all.
         bind_err (case df_all of
                     None \<Rightarrow> Inl (UnboundLocalError ''df_all'')
                   | Some df \<Rightarrow> Inr (convert_cf_kh df)) (\<lambda>df_all.
         bind_err (reservoir_loop annulus_inflow self well lateral (my_days_idx self) df_all)
           (\<lambda>df_all. Inr (convert_cf_kh df_all)))))))"

subsection \<open>One well of \<^verbatim>\<open>main\<close>\<close>

text \<open>
  The calls that \<^verbatim>\<open>main\<close> makes for one row of the \<^verbatim>\<open>INFORMATION\<close> table, from
  \<^verbatim>\<open>get_info_per_well\<close> to \<^verbatim>\<open>get_data\<close>, on an object whose files are read. Unpacking
  the \<^verbatim>\<open>None\<close> that \<^verbatim>\<open>get_packer\<close> returns for an unknown well raises \<^verbatim>\<open>TypeError\<close>.
\<close>

definition main_well ::
  "(string \<Rightarrow> int option) \<Rightarrow> (string \<Rightarrow> real option)
     \<Rightarrow> (out_row list \<Rightarrow> zone_row list \<Rightarrow> nat \<Rightarrow> string \<Rightarrow> out_row list \<Rightarrow> error + real list)
     \<Rightarrow> information_row list \<Rightarrow> segment_plot \<Rightarrow> string \<Rightarrow> int
     \<Rightarrow> error + ((real \<times> real) frame \<times> out_row list)" where
  "main_well int_of float_of annulus_inflow information self well lateral =
     bind_err (get_info_per_well int_of float_of information well lateral)
       (\<lambda>(tubing, device, annulus, my_days).
     bind_err (get_day_index (eclipse_days self) my_days) (\<lambda>(day_idx, printed).
     (let self = self\<lparr>tubing_segment := tubing, device_segment := device,
                         annulus_segment := annulus, my_days_idx := day_idx\<rparr>;
          trajectory = get_trajectory (welsegs_table self) well (tubing_segment self)
      in bind_err (get_packer (welsegs_table self) well (annulus_segment self)) (\<lambda>packer.
           case packer of
             None \<Rightarrow> Inl (TypeError ''cannot unpack non-iterable NoneType object'')
           | Some (df_packer, df_zone) \<Rightarrow>
               bind_err (get_data annulus_inflow (self\<lparr>df_annulus_zone := df_zone\<rparr>) well lateral)
                 (\<lambda>df_output. Inr (df_packer, df_output))))))"

subsection \<open>Notions of the specification\<close>

text \<open>
  What the specification asks of the index \<open>v\<close> returned for a requested day: the first
  position holding the day when there is one, a position of least absolute difference
  otherwise.
\<close>

definition day_resolved :: "real list \<Rightarrow> real \<Rightarrow> int \<Rightarrow> bool" where
  "day_resolved available day v \<longleftrightarrow>
     (\<exists>j<length available. v = int j \<and>
        (if day \<in> set available
         then available ! j = day \<and> (\<forall>k<j. available ! k \<noteq> day)
         else (\<forall>k<length available.
                 \<bar>available ! j - day\<bar> \<le> \<bar>available ! k - day\<bar>)))"

text \<open>
  What the specification calls containment, and the first interval, in input order, that
  contains a depth.
\<close>

definition inside :: "compseg \<Rightarrow> real \<Rightarrow> bool" where
  "inside c p \<longleftrightarrow> cs_STARTMD c \<le> p \<and> p \<le> cs_ENDMD c"

definition first_inside :: "compseg list \<Rightarrow> real \<Rightarrow> nat \<Rightarrow> bool" where
  "first_inside compsegs p j \<longleftrightarrow>
     j < length compsegs \<and> inside (compsegs ! j) p \<and> (\<forall>k<j. \<not> inside (compsegs ! k) p)"

text \<open>
  The branches as the specification describes them: entry \<open>i\<close> closes the current branch
  when at least three entries follow it and the three next start depths are all below its
  end depth; the last entry closes the last branch. \<open>spec_split\<close> walks the indices with
  the start of the current branch, and \<open>spec_select\<close> is the sub-range of the branch of a
  1-indexed number, \<open>None\<close> when there is no such branch.
\<close>

definition closes_branch :: "compseg list \<Rightarrow> nat \<Rightarrow> bool" where
  "closes_branch compsegs i \<longleftrightarrow>
     i + 3 < length compsegs
     \<and> cs_STARTMD (compsegs ! (i + 1)) < cs_ENDMD (compsegs ! i)
     \<and> cs_STARTMD (compsegs ! (i + 2)) < cs_ENDMD (compsegs ! i)
     \<and> cs_STARTMD (compsegs ! (i + 3)) < cs_ENDMD (compsegs ! i)"

fun spec_split :: "compseg list \<Rightarrow> nat \<Rightarrow> nat list \<Rightarrow> (nat \<times> nat) list" where
  "spec_split compsegs a [] = (if compsegs = [] then [] else [(a, length compsegs - 1)])"
| "spec_split compsegs a (i # rest) =
     (if closes_branch compsegs i then (a, i) # spec_split compsegs (i + 1) rest
      else spec_split compsegs a rest)"

definition spec_branches :: "compseg list \<Rightarrow> (nat \<times> nat) list" where
  "spec_branches compsegs = spec_split compsegs 0 [0..<length compsegs]"

definition spec_select :: "compseg list \<Rightarrow> int \<Rightarrow> compseg list option" where
  "spec_select compsegs lateral =
     (let branches = spec_branches compsegs in
      if 1 \<le> lateral \<and> lateral \<le> int (length branches)
      then (case branches ! nat (lateral - 1) of
              (a, z) \<Rightarrow> Some (drop a (take (z + 1) compsegs)))
      else None)"

text \<open>A row of \<^verbatim>\<open>COMPDAT\<close> is for the cell of a segment row.\<close>

definition same_cell :: "seg_row \<Rightarrow> compdat_row \<Rightarrow> bool" where
  "same_cell w c \<longleftrightarrow> cd_I c = s_I w \<and> cd_J c = s_J w \<and> cd_K c = s_K w"

subsection \<open>Data for the examples\<close>

text \<open>A frame row with the three rate columns.\<close>

definition rates_row :: "real \<Rightarrow> real \<Rightarrow> real \<Rightarrow> out_row" where
  "rates_row oil water gas =
     \<lparr>WELL = ''A'', SECTION = ''Device'', DATE = 0, SEGMENT = 5, MD = 100, STARTMD = 95,
      ENDMD = 105, CF = Num 5, KH = Num 50, THICKNESS = 10, DIAMETER = 0.15,
      cols = [(''SOFR'', oil), (''SWFR'', water), (''SGFRF'', gas)]\<rparr>"

text \<open>
  A well \<^verbatim>\<open>A\<close> with the tubing segments 2, 3, 4 and the device segments 5, 6, 7, three
  completion rows in one lateral, and static properties for two of the three cells, one
  of them with a text for \<^verbatim>\<open>KH\<close>.
\<close>

definition ex_welsegs :: "welseg list" where
  "ex_welsegs =
     [\<lparr>TUBINGSEGMENT = 2, TUBINGOUTLET = 1, TUBINGMD = 100, TUBINGTVD = 90, TUBINGID = 0.15\<rparr>,
      \<lparr>TUBINGSEGMENT = 3, TUBINGOUTLET = 2, TUBINGMD = 110, TUBINGTVD = 91, TUBINGID = 0.15\<rparr>,
      \<lparr>TUBINGSEGMENT = 4, TUBINGOUTLET = 3, TUBINGMD = 120, TUBINGTVD = 92, TUBINGID = 0.15\<rparr>,
      \<lparr>TUBINGSEGMENT = 5, TUBINGOUTLET = 2, TUBINGMD = 100.1, TUBINGTVD = 90, TUBINGID = 0.15\<rparr>,
      \<lparr>TUBINGSEGMENT = 6, TUBINGOUTLET = 3, TUBINGMD = 110.1, TUBINGTVD = 91, TUBINGID = 0.15\<rparr>,
      \<lparr>TUBINGSEGMENT = 7, TUBINGOUTLET = 4, TUBINGMD = 120.1, TUBINGTVD = 92, TUBINGID = 0.15\<rparr>]"

definition ex_compsegs :: "compseg list" where
  "ex_compsegs =
     [\<lparr>cs_I = 1, cs_J = 1, cs_K = 1, cs_STARTMD = 95, cs_ENDMD = 105\<rparr>,
      \<lparr>cs_I = 2, cs_J = 1, cs_K = 1, cs_STARTMD = 105, cs_ENDMD = 115\<rparr>,
      \<lparr>cs_I = 3, cs_J = 1, cs_K = 1, cs_STARTMD = 115, cs_ENDMD = 125\<rparr>]"

definition ex_compdat :: "compdat_row list" where
  "ex_compdat =
     [\<lparr>cd_WELL = ''A'', cd_I = 1, cd_J = 1, cd_K = 1, cd_CF = Num 5, cd_KH = Num 50\<rparr>,
      \<lparr>cd_WELL = ''A'', cd_I = 2, cd_J = 1, cd_K = 1, cd_CF = Num 6, cd_KH = Text ''1*''\<rparr>]"

text \<open>
  A reading of \<^verbatim>\<open>int\<close> for the examples: a non-empty string of decimal digits. The
  \<^verbatim>\<open>INFORMATION\<close> table has one row, whose device interval is an argument.
\<close>

definition digit_of :: "char \<Rightarrow> int option" where
  "digit_of c = map_of (zip ''0123456789'' [0, 1, 2, 3, 4, 5, 6, 7, 8, 9]) c"

fun int_of_digits :: "int \<Rightarrow> string \<Rightarrow> int option" where
  "int_of_digits acc [] = Some acc"
| "int_of_digits acc (c # cs) =
     (case digit_of c of None \<Rightarrow> None | Some d \<Rightarrow> int_of_digits (10 * acc + d) cs)"

definition ex_int_of :: "string \<Rightarrow> int option" where
  "ex_int_of s = (if s = [] then None else int_of_digits 0 s)"

definition ex_information :: "string \<Rightarrow> information_row list" where
  "ex_information device =
     [\<lparr>info_WELL = ''A'', info_LATERAL = 1, info_TUBINGSEGMENT = ''2-4'',
       info_DEVICESEGMENT = device, info_ANNULUSSEGMENT = ''1*'', info_DAYS = ''1*''\<rparr>]"

text \<open>
  A reading of floats on the same strings, a summary file for the well \<^verbatim>\<open>A\<close> with two
  report steps and the three rate keywords, the object after the files are read, and a
  stand-in for the reconciliation with annulus zones, which no example reaches.
\<close>

definition ex_float_of :: "string \<Rightarrow> real option" where
  "ex_float_of s = map_option real_of_int (ex_int_of s)"

definition ex_eclipse :: "string \<Rightarrow> real list option" where
  "ex_eclipse =
     map_of
       [(''SOFR:A:1'', [0, 0]), (''SWFR:A:1'', [0, 0]), (''SGFRF:A:1'', [0, 0]),
        (''SOFR:A:2'', [10, 1]), (''SOFR:A:3'', [7, 1]), (''SOFR:A:4'', [7, 1]),
        (''SWFR:A:2'', [1, 1]), (''SWFR:A:3'', [1, 1]), (''SWFR:A:4'', [0.05, 1]),
        (''SGFRF:A:2'', [1, 1]), (''SGFRF:A:3'', [1, 1]), (''SGFRF:A:4'', [1, 1]),
        (''SOFR:A:5'', [3, 1]), (''SOFR:A:6'', [0, 1]), (''SOFR:A:7'', [7, 1]),
        (''SWFR:A:5'', [1, 1]), (''SWFR:A:6'', [1, 1]), (''SWFR:A:7'', [0.05, 1]),
        (''SGFRF:A:5'', [100, 1]), (''SGFRF:A:6'', [20, 1]), (''SGFRF:A:7'', [3, 1])]"

definition ex_plot :: segment_plot where
  "ex_plot =
     \<lparr>welsegs_table = [(''A'', ex_welsegs)], compsegs_table = [(''A'', ex_compsegs)],
      compdat_table = ex_compdat, eclipse = ex_eclipse, eclipse_dates = [1000, 1031],
      eclipse_days = [0, 31], tubing_segment = [2, 3, 4], device_segment = [5, 6, 7],
      annulus_segment = [0], my_days_idx = [0], df_annulus_zone = NoColumns\<rparr>"

definition ex_annulus_inflow ::
  "out_row list \<Rightarrow> zone_row list \<Rightarrow> nat \<Rightarrow> string \<Rightarrow> out_row list \<Rightarrow> error + real list" where
  "ex_annulus_inflow df_all zones date keyword data_frame = Inr (replicate (length data_frame) 0)"


text \<open>
  Completion rows of a well with two laterals of four cells each; the second lateral starts
  at a depth of 105, above the end of the first one at 140.
\<close>

definition ex_two_laterals :: "compseg list" where
  "ex_two_laterals =
     [\<lparr>cs_I = 1, cs_J = 1, cs_K = 1, cs_STARTMD = 100, cs_ENDMD = 110\<rparr>,
      \<lparr>cs_I = 2, cs_J = 1, cs_K = 1, cs_STARTMD = 110, cs_ENDMD = 120\<rparr>,
      \<lparr>cs_I = 3, cs_J = 1, cs_K = 1, cs_STARTMD = 120, cs_ENDMD = 130\<rparr>,
      \<lparr>cs_I = 4, cs_J = 1, cs_K = 1, cs_STARTMD = 130, cs_ENDMD = 140\<rparr>,
      \<lparr>cs_I = 1, cs_J = 2, cs_K = 1, cs_STARTMD = 105, cs_ENDMD = 115\<rparr>,
      \<lparr>cs_I = 1, cs_J = 3, cs_K = 1, cs_STARTMD = 115, cs_ENDMD = 125\<rparr>,
      \<lparr>cs_I = 1, cs_J = 4, cs_K = 1, cs_STARTMD = 125, cs_ENDMD = 135\<rparr>,
      \<lparr>cs_I = 1, cs_J = 5, cs_K = 1, cs_STARTMD = 135, cs_ENDMD = 145\<rparr>]"

text \<open>The segment and the two static properties of a row of the table.\<close>

definition static_cells :: "out_row \<Rightarrow> int \<times> cell \<times> cell" where
  "static_cells r = (SEGMENT r, CF r, KH r)"

text \<open>
  Two rows of a table, the second with a text for \<^verbatim>\<open>KH\<close>, and a segment row in the cell
  \<open>(3, 1, 1)\<close>, for which \<open>ex_compdat\<close> has no row.
\<close>

definition ex_text_rows :: "out_row list" where
  "ex_text_rows = [rates_row 3 1 100, (rates_row 0 1 20)\<lparr>CF := Num 6, KH := Text ''1*''\<rparr>]"

definition ex_seg_row :: seg_row where
  "ex_seg_row =
     \<lparr>s_WELL = ''A'', Segment = 7, s_MD = 120.1, s_DIAMETER = 0.15, s_STARTMD = 115,
      s_ENDMD = 125, s_I = 3, s_J = 1, s_K = 1\<rparr>"

text \<open>The section, the segment and the oil and gas rates of a row of the table.\<close>

definition rate_cells :: "out_row \<Rightarrow> string \<times> int \<times> real option \<times> real option" where
  "rate_cells r = (SECTION r, SEGMENT r, map_of (cols r) ''SOFR'', map_of (cols r) ''SGFRF'')"

section \<open>Properties\<close>

subsection \<open>Lists and exceptions\<close>

lemma hd_filter_upt:
  assumes "filter P [0..<n] \<noteq> []"
  shows "hd (filter P [0..<n]) < n \<and> P (hd (filter P [0..<n])) \<and> (\<forall>k<hd (filter P [0..<n]). \<not> P k)"
proof -
  obtain j js where e: "filter P [0..<n] = j # js"
    using assms by (cases "filter P [0..<n]") auto
  have "j \<in> set (filter P [0..<n])" by (simp add: e)
  then have a: "j < n" "P j" by auto
  have srt: "sorted (j # js)" using sorted_wrt_filter[of "(\<le>)" "[0..<n]" P] by (simp add: e)
  have "\<not> P k" if "k < j" for k
  proof
    assume "P k"
    then have "k \<in> set (filter P [0..<n])" using that a by auto
    then have "k = j \<or> k \<in> set js" by (simp add: e)
    then have "j \<le> k" using srt by auto
    then show False using that by simp
  qed
  then show ?thesis using a by (simp add: e)
qed

lemma bind_err_simps [simp]:
  "bind_err (Inl e) f = Inl e"
  "bind_err (Inr x) f = f x"
  by (simp_all add: bind_err_def)

lemma map_err_all:
  assumes "\<forall>x\<in>set xs. \<exists>y. f x = Inr y"
  shows "\<exists>ys. map_err f xs = Inr ys \<and> length ys = length xs
           \<and> (\<forall>i<length xs. f (xs ! i) = Inr (ys ! i))"
  using assms
proof (induction xs)
  case Nil
  then show ?case by simp
next
  case (Cons x xs)
  then obtain y where y: "f x = Inr y" by auto
  from Cons obtain ys where ys: "map_err f xs = Inr ys" "length ys = length xs"
      "\<forall>i<length xs. f (xs ! i) = Inr (ys ! i)" by auto
  have "f ((x # xs) ! i) = Inr ((y # ys) ! i)" if "i < length (x # xs)" for i
    using that y ys(3) by (cases i) auto
  then show ?case using y ys by auto
qed

lemma map_err_first_fail:
  assumes "i < length xs" "f (xs ! i) = Inl e" "\<forall>k<i. \<exists>y. f (xs ! k) = Inr y"
  shows "map_err f xs = Inl e"
  using assms
proof (induction xs arbitrary: i)
  case Nil
  then show ?case by simp
next
  case (Cons x xs)
  show ?case
  proof (cases i)
    case 0
    then show ?thesis using Cons.prems by simp
  next
    case (Suc i')
    then obtain y where y: "f x = Inr y" using Cons.prems(3) by force
    have "map_err f xs = Inl e"
    proof (rule Cons.IH[of i'])
      show "i' < length xs" using Cons.prems(1) Suc by simp
      show "f (xs ! i') = Inl e" using Cons.prems(2) Suc by simp
      show "\<forall>k<i'. \<exists>y. f (xs ! k) = Inr y"
      proof (intro allI impI)
        fix k assume "k < i'"
        then have "Suc k < i" using Suc by simp
        with Cons.prems(3) have "\<exists>y. f ((x # xs) ! Suc k) = Inr y" by blast
        then show "\<exists>y. f (xs ! k) = Inr y" by simp
      qed
    qed
    then show ?thesis using y by simp
  qed
qed

subsection \<open>The day resolver\<close>

lemma argwhere_eq_empty: "argwhere_eq ed day = [] \<longleftrightarrow> day \<notin> set ed"
proof -
  have "(\<forall>j<length ed. ed ! j \<noteq> day) \<longleftrightarrow> day \<notin> set ed"
    by (metis in_set_conv_nth)
  then show ?thesis unfolding argwhere_eq_def filter_empty_conv by auto
qed

lemma argwhere_eq_first:
  assumes "day \<in> set ed"
  shows "hd (argwhere_eq ed day) < length ed \<and> ed ! hd (argwhere_eq ed day) = day
         \<and> (\<forall>k<hd (argwhere_eq ed day). ed ! k \<noteq> day)"
proof -
  have "argwhere_eq ed day \<noteq> []" using assms by (simp add: argwhere_eq_empty)
  then have "filter (\<lambda>j. ed ! j = day) [0..<length ed] \<noteq> []"
    unfolding argwhere_eq_def .
  from hd_filter_upt[OF this] show ?thesis unfolding argwhere_eq_def .
qed

lemma argsort_min:
  assumes "dif \<noteq> []"
  shows "\<exists>j js. argsort dif = j # js \<and> j < length dif \<and> (\<forall>k<length dif. dif ! j \<le> dif ! k)"
proof -
  let ?s = "argsort dif"
  have st: "set ?s = {0..<length dif}" by (simp add: argsort_def)
  have "0 \<in> set ?s" using assms st by simp
  then have "?s \<noteq> []" by auto
  then obtain j js where e: "?s = j # js" by (cases ?s) auto
  have "sorted (map (\<lambda>j. dif ! j) ?s)" unfolding argsort_def by (rule sorted_sort_key)
  then have srt: "\<forall>k\<in>set js. dif ! j \<le> dif ! k" by (simp add: e)
  have "j \<in> set ?s" by (simp add: e)
  then have jl: "j < length dif" using st by simp
  have "dif ! j \<le> dif ! k" if "k < length dif" for k
  proof -
    have "k \<in> set ?s" using st that by simp
    then have "k = j \<or> k \<in> set js" by (simp add: e)
    then show ?thesis using srt by auto
  qed
  then show ?thesis using e jl by blast
qed

lemma day_loop_ok:
  assumes "ed \<noteq> []"
  shows "i + length days \<le> length day_idx \<Longrightarrow>
     \<exists>res. day_loop ed i days day_idx out
             = Inr (res, out @ map NoExactDay (filter (\<lambda>d. d \<notin> set ed) days))
       \<and> length res = length day_idx
       \<and> (\<forall>k<i. res ! k = day_idx ! k)
       \<and> (\<forall>k<length days. day_resolved ed (days ! k) (res ! (i + k)))"
proof (induction days arbitrary: i day_idx out)
  case Nil
  then show ?case by simp
next
  case (Cons day rest)
  have il: "i < length day_idx" using Cons.prems by simp
  obtain j where step: "day_loop ed i (day # rest) day_idx out
        = day_loop ed (Suc i) rest (day_idx[i := int j])
            (out @ map NoExactDay (filter (\<lambda>d. d \<notin> set ed) [day]))"
      and rj: "day_resolved ed day (int j)"
  proof (cases "day \<in> set ed")
    case True
    then have ne: "argwhere_eq ed day \<noteq> []" by (simp add: argwhere_eq_empty)
    have "day_resolved ed day (int (hd (argwhere_eq ed day)))"
      unfolding day_resolved_def using argwhere_eq_first[OF True] True by auto
    moreover have "day_loop ed i (day # rest) day_idx out
        = day_loop ed (Suc i) rest (day_idx[i := int (hd (argwhere_eq ed day))])
            (out @ map NoExactDay (filter (\<lambda>d. d \<notin> set ed) [day]))"
      using ne True by (simp add: Let_def)
    ultimately show ?thesis using that by blast
  next
    case False
    then have e: "argwhere_eq ed day = []" by (simp add: argwhere_eq_empty)
    let ?dif = "map (\<lambda>d. \<bar>d - day\<bar>) ed"
    have "?dif \<noteq> []" using assms by simp
    from argsort_min[OF this] obtain j js where a: "argsort ?dif = j # js" "j < length ed"
      and m: "\<forall>k<length ed. ?dif ! j \<le> ?dif ! k" by auto
    have "day_resolved ed day (int j)"
      unfolding day_resolved_def using a(2) m False by auto
    moreover have "day_loop ed i (day # rest) day_idx out
        = day_loop ed (Suc i) rest (day_idx[i := int j])
            (out @ map NoExactDay (filter (\<lambda>d. d \<notin> set ed) [day]))"
      using e a(1) False by (simp add: Let_def)
    ultimately show ?thesis using that by blast
  qed
  have "Suc i + length rest \<le> length (day_idx[i := int j])" using Cons.prems by simp
  from Cons.IH[OF this, of "out @ map NoExactDay (filter (\<lambda>d. d \<notin> set ed) [day])"]
  obtain res where r: "day_loop ed (Suc i) rest (day_idx[i := int j])
        (out @ map NoExactDay (filter (\<lambda>d. d \<notin> set ed) [day]))
      = Inr (res, (out @ map NoExactDay (filter (\<lambda>d. d \<notin> set ed) [day]))
                 @ map NoExactDay (filter (\<lambda>d. d \<notin> set ed) rest))"
    and l: "length res = length (day_idx[i := int j])"
    and keep: "\<forall>k<Suc i. res ! k = day_idx[i := int j] ! k"
    and rest: "\<forall>k<length rest. day_resolved ed (rest ! k) (res ! (Suc i + k))"
    by blast
  have ri: "res ! i = int j" using keep il by simp
  have k1: "\<forall>k<i. res ! k = day_idx ! k" using keep by simp
  have k2: "day_resolved ed ((day # rest) ! k) (res ! (i + k))" if "k < length (day # rest)" for k
  proof (cases k)
    case 0
    then show ?thesis using ri rj by simp
  next
    case (Suc k')
    then show ?thesis using rest that by simp
  qed
  have "day_loop ed i (day # rest) day_idx out
      = Inr (res, out @ map NoExactDay (filter (\<lambda>d. d \<notin> set ed) (day # rest)))"
    unfolding step r by simp
  then show ?case using l k1 k2 by auto
qed

lemma get_day_index_example: "get_day_index [0, 10, 20, 30] [10, 15] = Inr ([1, 1], [NoExactDay 15])"
  by (simp add: get_day_index_def argwhere_eq_def argsort_def upt_rec[of 0] upt_rec[of 1] upt_rec[of 2] upt_rec[of 3])

text \<open>
  C6. With at least one report step, \<^verbatim>\<open>get_day_index\<close> returns one index for each
  requested day, in the order of the request: the first position of the day among the
  report steps when the day is one of them, and otherwise a position whose day is at the
  least absolute difference from the requested one, after a warning for that day. The
  warnings printed are those of the days that are no report step, in order. Report steps
  0, 10, 20, 30 and the request 10, 15 give the indices 1, 1 and one warning, for 15.
\<close>

theorem get_day_index_resolves:
  "(available \<noteq> [] \<longrightarrow>
      (\<exists>day_idx printed.
          get_day_index available requested = Inr (day_idx, printed)
        \<and> length day_idx = length requested
        \<and> (\<forall>i<length requested. day_resolved available (requested ! i) (day_idx ! i))
        \<and> printed = map NoExactDay (filter (\<lambda>day. day \<notin> set available) requested)))
   \<and> get_day_index [0, 10, 20, 30] [10, 15] = Inr ([1, 1], [NoExactDay 15])"
proof (intro conjI impI)
  assume ne: "available \<noteq> []"
  have "0 + length requested \<le> length (replicate (length requested) (- 1 :: int))"
    by simp
  from day_loop_ok[OF ne this, of "[]"]
  obtain res where r: "day_loop available 0 requested (replicate (length requested) (- 1)) []
        = Inr (res, [] @ map NoExactDay (filter (\<lambda>d. d \<notin> set available) requested))"
    and l: "length res = length (replicate (length requested) (- 1 :: int))"
    and k: "\<forall>k<length requested. day_resolved available (requested ! k) (res ! (0 + k))"
    by blast
  show "\<exists>day_idx printed.
          get_day_index available requested = Inr (day_idx, printed)
        \<and> length day_idx = length requested
        \<and> (\<forall>i<length requested. day_resolved available (requested ! i) (day_idx ! i))
        \<and> printed = map NoExactDay (filter (\<lambda>day. day \<notin> set available) requested)"
    using r l k unfolding get_day_index_def by auto
next
  show "get_day_index [0, 10, 20, 30] [10, 15] = Inr ([1, 1], [NoExactDay 15])"
    by (rule get_day_index_example)
qed

theorem get_day_index_resolves_witness:
  "[0, 10, 20, 30] \<noteq> ([] :: real list)
   \<and> (\<exists>day_idx printed.
          get_day_index [0, 10, 20, 30] [10, 15] = Inr (day_idx, printed)
        \<and> length day_idx = 2
        \<and> day_resolved [0, 10, 20, 30] 10 (day_idx ! 0)
        \<and> day_resolved [0, 10, 20, 30] 15 (day_idx ! 1)
        \<and> printed = [NoExactDay 15])"
proof -
  have ne: "[0, 10, 20, 30] \<noteq> ([] :: real list)" by simp
  from get_day_index_resolves[of "[0, 10, 20, 30]" "[10, 15]"] ne
  obtain day_idx printed where
      a: "get_day_index [0, 10, 20, 30] [10, 15] = Inr (day_idx, printed)"
    and l: "length day_idx = length [10, 15 :: real]"
    and k: "\<forall>i<length [10, 15 :: real].
              day_resolved [0, 10, 20, 30] ([10, 15] ! i) (day_idx ! i)"
    and p: "printed = map NoExactDay (filter (\<lambda>day. day \<notin> set [0, 10, 20, 30]) [10, 15])"
    by blast
  have k0: "day_resolved [0, 10, 20, 30] 10 (day_idx ! 0)" using k[rule_format, of 0] by simp
  have k1: "day_resolved [0, 10, 20, 30] 15 (day_idx ! 1)" using k[rule_format, of 1] by simp
  have p': "printed = [NoExactDay 15]" using p by simp
  show ?thesis using ne a l k0 k1 p' by auto
qed

subsection \<open>Columns of a frame\<close>

lemma those_values_Some:
  "those_values xs = Some ys \<Longrightarrow> length ys = length xs \<and> (\<forall>i<length xs. xs ! i = Some (ys ! i))"
proof (induction xs arbitrary: ys)
  case Nil
  then show ?case by simp
next
  case (Cons x xs)
  then obtain y ys' where x: "x = Some y" and r: "those_values xs = Some ys'" and ys: "ys = y # ys'"
    by (auto split: option.splits)
  from Cons.IH[OF r] have l: "length ys' = length xs" and a: "\<forall>i<length xs. xs ! i = Some (ys' ! i)"
    by auto
  have "(x # xs) ! i = Some (ys ! i)" if "i < length (x # xs)" for i
    using that x ys a by (cases i) auto
  then show ?case using l ys by simp
qed

lemma those_values_map_Some: "those_values (map Some ys) = Some ys"
  by (induction ys) auto

lemma those_values_eq:
  assumes "length xs = length ys" "\<forall>i<length xs. xs ! i = Some (ys ! i)"
  shows "those_values xs = Some ys"
proof -
  have "xs = map Some ys" using assms by (simp add: list_eq_iff_nth_eq)
  then show ?thesis by (simp add: those_values_map_Some)
qed

lemma column_Some:
  "column name df = Some v \<Longrightarrow>
     length v = length df \<and> (\<forall>i<length df. map_of (cols (df ! i)) name = Some (v ! i))"
  unfolding column_def using those_values_Some[of "map (\<lambda>r. map_of (cols r) name) df" v]
  by simp

lemma column_eq:
  assumes "length v = length df" "\<forall>i<length df. map_of (cols (df ! i)) name = Some (v ! i)"
  shows "column name df = Some v"
  unfolding column_def using assms by (intro those_values_eq) auto

lemma set_column_ok:
  "length value = length df \<Longrightarrow>
     set_column name value df
       = Inr (map (\<lambda>(r, v). r\<lparr>cols := AList.update name v (cols r)\<rparr>) (zip df value))"
  by (simp add: set_column_def)

lemma set_column_length: "set_column name value df = Inr df' \<Longrightarrow> length df' = length df"
  by (auto simp: set_column_def split: if_splits)

lemma set_column_same:
  assumes "set_column name value df = Inr df'" "i < length df"
  shows "map_of (cols (df' ! i)) name = Some (value ! i)"
  using assms by (auto simp: set_column_def update_conv' split: if_splits)

lemma set_column_other:
  assumes "set_column name value df = Inr df'" "i < length df" "other \<noteq> name"
  shows "map_of (cols (df' ! i)) other = map_of (cols (df ! i)) other"
  using assms by (auto simp: set_column_def update_conv' split: if_splits)

lemma set_column_column_same:
  assumes "set_column name value df = Inr df'"
  shows "column name df' = Some value"
proof -
  have l: "length value = length df" using assms by (auto simp: set_column_def split: if_splits)
  show ?thesis
    using set_column_length[OF assms] set_column_same[OF assms] l by (intro column_eq) auto
qed

lemma set_column_column_other:
  assumes "set_column name value df = Inr df'" "other \<noteq> name"
  shows "column other df' = column other df"
proof -
  have l: "length df' = length df" by (rule set_column_length[OF assms(1)])
  have "map (\<lambda>r. map_of (cols r) other) df' = map (\<lambda>r. map_of (cols r) other) df"
    using l set_column_other[OF assms(1) _ assms(2)] by (simp add: list_eq_iff_nth_eq)
  then show ?thesis by (simp add: column_def)
qed

subsection \<open>Water cut and gas-oil ratio\<close>

lemma add_swct_present:
  assumes "column ''SWFR'' df = Some swfr" "column ''SOFR'' df = Some sofr"
  shows "set_column ''SWCT'' (map (\<lambda>(water, oil). swct water oil) (zip swfr sofr)) df
           = Inr (add_swct df)"
proof -
  have "length swfr = length df" "length sofr = length df"
    using column_Some[OF assms(1)] column_Some[OF assms(2)] by auto
  then have "length (map (\<lambda>(water, oil). swct water oil) (zip swfr sofr)) = length df" by simp
  from set_column_ok[OF this, of "''SWCT''"] show ?thesis
    using assms by (simp add: add_swct_def)
qed

lemma add_sgor_present:
  assumes "column ''SGFRF'' df = Some sgfrf" "column ''SOFR'' df = Some sofr"
  shows "set_column ''SGOR'' (map (\<lambda>(gas, oil). sgor gas oil) (zip sgfrf sofr)) df
           = Inr (add_sgor df)"
proof -
  have "length sgfrf = length df" "length sofr = length df"
    using column_Some[OF assms(1)] column_Some[OF assms(2)] by auto
  then have "length (map (\<lambda>(gas, oil). sgor gas oil) (zip sgfrf sofr)) = length df" by simp
  from set_column_ok[OF this, of "''SGOR''"] show ?thesis
    using assms by (simp add: add_sgor_def)
qed

lemma add_swct_length: "length (add_swct df) = length df"
  by (auto simp: add_swct_def set_column_def split: option.splits sum.splits if_splits)

lemma add_sgor_length: "length (add_sgor df) = length df"
  by (auto simp: add_sgor_def set_column_def split: option.splits sum.splits if_splits)

lemma add_swct_other:
  assumes "other \<noteq> ''SWCT''"
  shows "column other (add_swct df) = column other df"
proof (cases "\<exists>swfr sofr. column ''SWFR'' df = Some swfr \<and> column ''SOFR'' df = Some sofr")
  case True
  then obtain swfr sofr where c: "column ''SWFR'' df = Some swfr" "column ''SOFR'' df = Some sofr"
    by blast
  from set_column_column_other[OF add_swct_present[OF c] assms] show ?thesis .
next
  case False
  then have "add_swct df = df" by (auto simp: add_swct_def split: option.splits)
  then show ?thesis by simp
qed

lemma add_sgor_other:
  assumes "other \<noteq> ''SGOR''"
  shows "column other (add_sgor df) = column other df"
proof (cases "\<exists>sgfrf sofr. column ''SGFRF'' df = Some sgfrf \<and> column ''SOFR'' df = Some sofr")
  case True
  then obtain sgfrf sofr where c: "column ''SGFRF'' df = Some sgfrf" "column ''SOFR'' df = Some sofr"
    by blast
  from set_column_column_other[OF add_sgor_present[OF c] assms] show ?thesis .
next
  case False
  then have "add_sgor df = df" by (auto simp: add_sgor_def split: option.splits)
  then show ?thesis by simp
qed

lemma swct_column:
  assumes "column ''SWFR'' df = Some swfr" "column ''SOFR'' df = Some sofr"
  shows "column ''SWCT'' (add_sgor (add_swct df))
           = Some (map (\<lambda>(water, oil). swct water oil) (zip swfr sofr))"
proof -
  have "column ''SWCT'' (add_swct df) = Some (map (\<lambda>(water, oil). swct water oil) (zip swfr sofr))"
    by (rule set_column_column_same[OF add_swct_present[OF assms]])
  then show ?thesis by (simp add: add_sgor_other)
qed

lemma sgor_column:
  assumes "column ''SGFRF'' df = Some sgfrf" "column ''SOFR'' df = Some sofr"
  shows "column ''SGOR'' (add_sgor (add_swct df))
           = Some (map (\<lambda>(gas, oil). sgor gas oil) (zip sgfrf sofr))"
proof -
  have "column ''SGFRF'' (add_swct df) = Some sgfrf" "column ''SOFR'' (add_swct df) = Some sofr"
    using assms by (simp_all add: add_swct_other)
  from set_column_column_same[OF add_sgor_present[OF this]] show ?thesis .
qed

lemma swct_floor_example: "swct 0.05 0.02 = 0"
  by (simp add: swct_def min_rate_def)

text \<open>
  C7, as amended. In a frame with the columns \<^verbatim>\<open>SWFR\<close> and \<^verbatim>\<open>SOFR\<close>, the water cut of a row
  is \<open>|water| / (|water| + |oil| + 0.00001)\<close>, except that it is 0 when the sum
  \<open>|water| + |oil|\<close> is below the threshold 0.1; rates 0.05 and 0.02 give 0. With the
  columns \<^verbatim>\<open>SGFRF\<close> and \<^verbatim>\<open>SOFR\<close>, the gas-oil ratio of a row is \<open>|gas| / (|oil| + 0.00001)\<close>.
\<close>

theorem water_cut_gas_oil_ratio:
  "(column ''SWFR'' df = Some swfr \<and> column ''SOFR'' df = Some sofr \<and> i < length df \<longrightarrow>
      map_of (cols (add_sgor (add_swct df) ! i)) ''SWCT''
        = Some (if \<bar>swfr ! i\<bar> + \<bar>sofr ! i\<bar> < 0.1 then 0
                else \<bar>swfr ! i\<bar> / (\<bar>swfr ! i\<bar> + \<bar>sofr ! i\<bar> + 0.00001)))
   \<and> (column ''SGFRF'' df = Some sgfrf \<and> column ''SOFR'' df = Some sofr \<and> i < length df \<longrightarrow>
      map_of (cols (add_sgor (add_swct df) ! i)) ''SGOR''
        = Some (\<bar>sgfrf ! i\<bar> / (\<bar>sofr ! i\<bar> + 0.00001)))
   \<and> swct 0.05 0.02 = 0"
proof (intro conjI impI)
  assume a: "column ''SWFR'' df = Some swfr \<and> column ''SOFR'' df = Some sofr \<and> i < length df"
  then have l: "length swfr = length df" "length sofr = length df"
    using column_Some[of "''SWFR''" df swfr] column_Some[of "''SOFR''" df sofr] by auto
  have il: "i < length (add_sgor (add_swct df))" using a by (simp add: add_sgor_length add_swct_length)
  from column_Some[OF swct_column] a il
  have "map_of (cols (add_sgor (add_swct df) ! i)) ''SWCT''
          = Some (map (\<lambda>(water, oil). swct water oil) (zip swfr sofr) ! i)"
    by blast
  then show "map_of (cols (add_sgor (add_swct df) ! i)) ''SWCT''
        = Some (if \<bar>swfr ! i\<bar> + \<bar>sofr ! i\<bar> < 0.1 then 0
                else \<bar>swfr ! i\<bar> / (\<bar>swfr ! i\<bar> + \<bar>sofr ! i\<bar> + 0.00001))"
    using a l by (simp add: swct_def min_rate_def)
next
  assume a: "column ''SGFRF'' df = Some sgfrf \<and> column ''SOFR'' df = Some sofr \<and> i < length df"
  then have l: "length sgfrf = length df" "length sofr = length df"
    using column_Some[of "''SGFRF''" df sgfrf] column_Some[of "''SOFR''" df sofr] by auto
  have il: "i < length (add_sgor (add_swct df))" using a by (simp add: add_sgor_length add_swct_length)
  from column_Some[OF sgor_column] a il
  have "map_of (cols (add_sgor (add_swct df) ! i)) ''SGOR''
          = Some (map (\<lambda>(gas, oil). sgor gas oil) (zip sgfrf sofr) ! i)"
    by blast
  then show "map_of (cols (add_sgor (add_swct df) ! i)) ''SGOR''
        = Some (\<bar>sgfrf ! i\<bar> / (\<bar>sofr ! i\<bar> + 0.00001))"
    using a l by (simp add: sgor_def)
next
  show "swct 0.05 0.02 = 0" by (rule swct_floor_example)
qed


lemma column_rates_row:
  "column ''SOFR'' [rates_row oil water gas] = Some [oil]"
  "column ''SWFR'' [rates_row oil water gas] = Some [water]"
  "column ''SGFRF'' [rates_row oil water gas] = Some [gas]"
  by (simp_all add: column_def rates_row_def)

theorem water_cut_gas_oil_ratio_witness:
  "column ''SWFR'' [rates_row 3 1 100] = Some [1] \<and> column ''SOFR'' [rates_row 3 1 100] = Some [3]
   \<and> column ''SGFRF'' [rates_row 3 1 100] = Some [100] \<and> (0::nat) < length [rates_row 3 1 100]
   \<and> map_of (cols (add_sgor (add_swct [rates_row 3 1 100]) ! 0)) ''SWCT'' = Some (100000 / 400001)
   \<and> map_of (cols (add_sgor (add_swct [rates_row 3 1 100]) ! 0)) ''SGOR'' = Some (10000000 / 300001)"
  using water_cut_gas_oil_ratio[of "[rates_row 3 1 100]" "[1]" "[3]" 0 "[100]"]
  by (simp add: column_rates_row)

text \<open>
  C7 as stated fails: with a water rate and an oil rate of 0.08, both below the threshold
  0.1, the water cut is 8000/16001 and not 0, because the sum 0.16 is not below 0.1.
\<close>

theorem water_cut_both_below_counterexample:
  "\<bar>0.08 :: real\<bar> < min_rate \<and> \<bar>0.08 :: real\<bar> < min_rate
   \<and> column ''SWFR'' [rates_row 0.08 0.08 1] = Some [0.08]
   \<and> column ''SOFR'' [rates_row 0.08 0.08 1] = Some [0.08]
   \<and> map_of (cols (add_sgor (add_swct [rates_row 0.08 0.08 1]) ! 0)) ''SWCT'' = Some (8000 / 16001)
   \<and> (8000 / 16001 :: real) \<noteq> 0"
  by (simp add: column_rates_row min_rate_def add_swct_def add_sgor_def set_column_def
        update_conv' swct_def sgor_def column_def rates_row_def)

subsection \<open>The interval of a depth\<close>

lemma argwhere_between_comps:
  "argwhere_between (map cs_STARTMD compsegs) (map cs_ENDMD compsegs) p
     = filter (\<lambda>j. inside (compsegs ! j) p) [0..<length compsegs]"
  unfolding argwhere_between_def inside_def
  by (rule filter_cong) auto

lemma argwhere_between_empty:
  "argwhere_between (map cs_STARTMD compsegs) (map cs_ENDMD compsegs) p = []
     \<longleftrightarrow> (\<forall>c\<in>set compsegs. \<not> inside c p)"
proof -
  have "(\<forall>j<length compsegs. \<not> inside (compsegs ! j) p) \<longleftrightarrow> (\<forall>c\<in>set compsegs. \<not> inside c p)"
    by (metis in_set_conv_nth)
  then show ?thesis unfolding argwhere_between_comps filter_empty_conv by auto
qed

lemma argwhere_between_first:
  assumes "\<exists>c\<in>set compsegs. inside c p"
  shows "first_inside compsegs p
           (hd (argwhere_between (map cs_STARTMD compsegs) (map cs_ENDMD compsegs) p))"
proof -
  have "argwhere_between (map cs_STARTMD compsegs) (map cs_ENDMD compsegs) p \<noteq> []"
    using assms by (simp add: argwhere_between_empty)
  then have "filter (\<lambda>j. inside (compsegs ! j) p) [0..<length compsegs] \<noteq> []"
    unfolding argwhere_between_comps .
  from hd_filter_upt[OF this] show ?thesis
    unfolding argwhere_between_comps first_inside_def .
qed

lemma merge_row_outside:
  assumes "\<forall>c\<in>set compsegs. \<not> inside c p"
  shows "merge_row well compsegs (w, p) = Inl (ValueError (not_in_grid_msg (TUBINGSEGMENT w)))"
proof -
  have "argwhere_between (map cs_STARTMD compsegs) (map cs_ENDMD compsegs) p = []"
    using assms by (simp add: argwhere_between_empty)
  then show ?thesis by (simp add: merge_row_def Let_def)
qed

lemma merge_row_inside:
  assumes "\<exists>c\<in>set compsegs. inside c p"
  shows "\<exists>j. first_inside compsegs p j \<and>
           merge_row well compsegs (w, p)
             = Inr \<lparr>s_WELL = well, Segment = TUBINGSEGMENT w, s_MD = TUBINGMD w,
                    s_DIAMETER = TUBINGID w, s_STARTMD = cs_STARTMD (compsegs ! j),
                    s_ENDMD = cs_ENDMD (compsegs ! j), s_I = cs_I (compsegs ! j),
                    s_J = cs_J (compsegs ! j), s_K = cs_K (compsegs ! j)\<rparr>"
proof -
  let ?idx = "argwhere_between (map cs_STARTMD compsegs) (map cs_ENDMD compsegs) p"
  have ne: "?idx \<noteq> []" using assms by (simp add: argwhere_between_empty)
  have f: "first_inside compsegs p (hd ?idx)" by (rule argwhere_between_first[OF assms])
  then have l: "hd ?idx < length compsegs" by (simp add: first_inside_def)
  have "merge_row well compsegs (w, p)
      = Inr \<lparr>s_WELL = well, Segment = TUBINGSEGMENT w, s_MD = TUBINGMD w,
             s_DIAMETER = TUBINGID w, s_STARTMD = cs_STARTMD (compsegs ! hd ?idx),
             s_ENDMD = cs_ENDMD (compsegs ! hd ?idx), s_I = cs_I (compsegs ! hd ?idx),
             s_J = cs_J (compsegs ! hd ?idx), s_K = cs_K (compsegs ! hd ?idx)\<rparr>"
    using ne l by (simp add: merge_row_def Let_def)
  with f show ?thesis by blast
qed

lemma get_data_first_get_md_error:
  assumes "1 < length (device_segment self)" "my_days_idx self = idx # others"
    and "py_index (eclipse_dates self) idx = Inr date"
    and "get_md (welsegs_table self) (compsegs_table self) (compdat_table self) well
           (device_segment self) lateral ''device'' = Inl e"
  shows "get_data annulus_inflow self well lateral = Inl e"
  using assms by (simp add: get_data_def Let_def device_frame_def header_frame_def)

text \<open>
  C2. In the loop of \<^verbatim>\<open>get_md\<close> that merges the segments with the completion rows, \<open>rows\<close>
  being the segments paired with their depths: when every depth lies in some interval
  \<open>[STARTMD, ENDMD]\<close>, every row gets the bounds and the cell of the first interval, in
  input order, that contains its depth; when some depth lies in no interval, the loop
  raises \<^verbatim>\<open>ValueError\<close> with the message that names the first such segment. So the error
  is raised exactly when some depth is in no interval, and then \<^verbatim>\<open>get_md\<close> raises it too;
  \<^verbatim>\<open>get_data\<close> does not catch it: raised by its first call of \<^verbatim>\<open>get_md\<close>, for the device
  segments at the first report step, it ends \<^verbatim>\<open>get_data\<close>.
\<close>

theorem merge_first_interval_or_error:
  "((\<forall>i<length rows. \<exists>c\<in>set compsegs. inside c (snd (rows ! i))) \<longrightarrow>
      (\<exists>merged. map_err (merge_row well compsegs) rows = Inr merged
         \<and> length merged = length rows
         \<and> (\<forall>i<length rows. \<exists>j. first_inside compsegs (snd (rows ! i)) j
               \<and> Segment (merged ! i) = TUBINGSEGMENT (fst (rows ! i))
               \<and> s_STARTMD (merged ! i) = cs_STARTMD (compsegs ! j)
               \<and> s_ENDMD (merged ! i) = cs_ENDMD (compsegs ! j)
               \<and> s_I (merged ! i) = cs_I (compsegs ! j)
               \<and> s_J (merged ! i) = cs_J (compsegs ! j)
               \<and> s_K (merged ! i) = cs_K (compsegs ! j))))
   \<and> ((\<exists>i<length rows. \<forall>c\<in>set compsegs. \<not> inside c (snd (rows ! i))) \<longrightarrow>
      (\<exists>i<length rows. (\<forall>c\<in>set compsegs. \<not> inside c (snd (rows ! i)))
         \<and> (\<forall>k<i. \<exists>c\<in>set compsegs. inside c (snd (rows ! k)))
         \<and> map_err (merge_row well compsegs) rows
               = Inl (ValueError (not_in_grid_msg (TUBINGSEGMENT (fst (rows ! i)))))))
   \<and> (well_content wt well = Some content \<and> well_content ct well = Some every
        \<and> select_lateral every lateral = Inr compsegs
        \<and> measured_depths sect (filter (\<lambda>r. TUBINGSEGMENT r \<in> set segment) content) = Inr depths
        \<and> map_err (merge_row well compsegs)
              (zip (filter (\<lambda>r. TUBINGSEGMENT r \<in> set segment) content) depths) = Inl e
      \<longrightarrow> get_md wt ct cdat well segment lateral sect = Inl e)
   \<and> (1 < length (device_segment self) \<and> my_days_idx self = idx # others
        \<and> py_index (eclipse_dates self) idx = Inr date
        \<and> get_md (welsegs_table self) (compsegs_table self) (compdat_table self) well
              (device_segment self) lateral ''device'' = Inl e
      \<longrightarrow> get_data annulus_inflow self well lateral = Inl e)"
proof (intro conjI impI)
  assume a: "\<forall>i<length rows. \<exists>c\<in>set compsegs. inside c (snd (rows ! i))"
  have ok: "\<forall>x\<in>set rows. \<exists>y. merge_row well compsegs x = Inr y"
  proof
    fix x assume "x \<in> set rows"
    then obtain i where i: "i < length rows" "rows ! i = x" by (auto simp: in_set_conv_nth)
    obtain w p where x: "x = (w, p)" by (cases x)
    have "\<exists>c\<in>set compsegs. inside c p" using a i x by force
    from merge_row_inside[OF this, of well w] show "\<exists>y. merge_row well compsegs x = Inr y"
      using x by blast
  qed
  from map_err_all[OF ok] obtain merged where
      m: "map_err (merge_row well compsegs) rows = Inr merged" "length merged = length rows"
      "\<forall>i<length rows. merge_row well compsegs (rows ! i) = Inr (merged ! i)" by blast
  have "\<exists>j. first_inside compsegs (snd (rows ! i)) j
          \<and> Segment (merged ! i) = TUBINGSEGMENT (fst (rows ! i))
          \<and> s_STARTMD (merged ! i) = cs_STARTMD (compsegs ! j)
          \<and> s_ENDMD (merged ! i) = cs_ENDMD (compsegs ! j)
          \<and> s_I (merged ! i) = cs_I (compsegs ! j)
          \<and> s_J (merged ! i) = cs_J (compsegs ! j)
          \<and> s_K (merged ! i) = cs_K (compsegs ! j)" if i: "i < length rows" for i
  proof -
    obtain w p where x: "rows ! i = (w, p)" by (cases "rows ! i")
    have "\<exists>c\<in>set compsegs. inside c p" using a i x by force
    from merge_row_inside[OF this, of well w] obtain j where
      j: "first_inside compsegs p j" and
      r: "merge_row well compsegs (w, p)
             = Inr \<lparr>s_WELL = well, Segment = TUBINGSEGMENT w, s_MD = TUBINGMD w,
                    s_DIAMETER = TUBINGID w, s_STARTMD = cs_STARTMD (compsegs ! j),
                    s_ENDMD = cs_ENDMD (compsegs ! j), s_I = cs_I (compsegs ! j),
                    s_J = cs_J (compsegs ! j), s_K = cs_K (compsegs ! j)\<rparr>" by blast
    have "merged ! i = \<lparr>s_WELL = well, Segment = TUBINGSEGMENT w, s_MD = TUBINGMD w,
                    s_DIAMETER = TUBINGID w, s_STARTMD = cs_STARTMD (compsegs ! j),
                    s_ENDMD = cs_ENDMD (compsegs ! j), s_I = cs_I (compsegs ! j),
                    s_J = cs_J (compsegs ! j), s_K = cs_K (compsegs ! j)\<rparr>"
    proof -
      have "merge_row well compsegs (rows ! i) = Inr (merged ! i)" using m(3) i by blast
      then have "Inr (merged ! i) = merge_row well compsegs (w, p)" unfolding x by simp
      then show ?thesis unfolding r by simp
    qed
    then show ?thesis using j x by auto
  qed
  then show "\<exists>merged. map_err (merge_row well compsegs) rows = Inr merged
         \<and> length merged = length rows
         \<and> (\<forall>i<length rows. \<exists>j. first_inside compsegs (snd (rows ! i)) j
               \<and> Segment (merged ! i) = TUBINGSEGMENT (fst (rows ! i))
               \<and> s_STARTMD (merged ! i) = cs_STARTMD (compsegs ! j)
               \<and> s_ENDMD (merged ! i) = cs_ENDMD (compsegs ! j)
               \<and> s_I (merged ! i) = cs_I (compsegs ! j)
               \<and> s_J (merged ! i) = cs_J (compsegs ! j)
               \<and> s_K (merged ! i) = cs_K (compsegs ! j))"
    using m(1,2) by blast
next
  assume "\<exists>i<length rows. \<forall>c\<in>set compsegs. \<not> inside c (snd (rows ! i))"
  then have ex: "\<exists>i. i < length rows \<and> (\<forall>c\<in>set compsegs. \<not> inside c (snd (rows ! i)))" by blast
  define i where "i = (LEAST i. i < length rows \<and> (\<forall>c\<in>set compsegs. \<not> inside c (snd (rows ! i))))"
  have i: "i < length rows" "\<forall>c\<in>set compsegs. \<not> inside c (snd (rows ! i))"
    using LeastI_ex[OF ex] unfolding i_def by auto
  have before: "\<exists>c\<in>set compsegs. inside c (snd (rows ! k))" if "k < i" for k
  proof (rule ccontr)
    assume "\<not> (\<exists>c\<in>set compsegs. inside c (snd (rows ! k)))"
    then have "k < length rows \<and> (\<forall>c\<in>set compsegs. \<not> inside c (snd (rows ! k)))"
      using that i(1) by auto
    then have "i \<le> k" unfolding i_def by (rule Least_le)
    then show False using that by simp
  qed
  obtain w p where x: "rows ! i = (w, p)" by (cases "rows ! i")
  have fail: "merge_row well compsegs (rows ! i)
        = Inl (ValueError (not_in_grid_msg (TUBINGSEGMENT (fst (rows ! i)))))"
    using merge_row_outside[of compsegs p well w] i(2) x by simp
  have pre: "\<forall>k<i. \<exists>y. merge_row well compsegs (rows ! k) = Inr y"
  proof (intro allI impI)
    fix k assume k: "k < i"
    obtain w' p' where x': "rows ! k = (w', p')" by (cases "rows ! k")
    have "\<exists>c\<in>set compsegs. inside c p'" using before[OF k] x' by simp
    from merge_row_inside[OF this, of well w'] show "\<exists>y. merge_row well compsegs (rows ! k) = Inr y"
      using x' by auto
  qed
  from map_err_first_fail[OF i(1) fail pre] i before
  show "\<exists>i<length rows. (\<forall>c\<in>set compsegs. \<not> inside c (snd (rows ! i)))
         \<and> (\<forall>k<i. \<exists>c\<in>set compsegs. inside c (snd (rows ! k)))
         \<and> map_err (merge_row well compsegs) rows
               = Inl (ValueError (not_in_grid_msg (TUBINGSEGMENT (fst (rows ! i)))))"
    by blast
next
  assume "well_content wt well = Some content \<and> well_content ct well = Some every
        \<and> select_lateral every lateral = Inr compsegs
        \<and> measured_depths sect (filter (\<lambda>r. TUBINGSEGMENT r \<in> set segment) content) = Inr depths
        \<and> map_err (merge_row well compsegs)
              (zip (filter (\<lambda>r. TUBINGSEGMENT r \<in> set segment) content) depths) = Inl e"
  then show "get_md wt ct cdat well segment lateral sect = Inl e"
    by (simp add: get_md_def Let_def)
next
  assume "1 < length (device_segment self) \<and> my_days_idx self = idx # others
        \<and> py_index (eclipse_dates self) idx = Inr date
        \<and> get_md (welsegs_table self) (compsegs_table self) (compdat_table self) well
              (device_segment self) lateral ''device'' = Inl e"
  then show "get_data annulus_inflow self well lateral = Inl e"
    using get_data_first_get_md_error by blast
qed


lemma ex_rows_inside:
  "\<forall>i<length (zip (take 3 ex_welsegs) [100, 110, 120 :: real]).
     \<exists>c\<in>set ex_compsegs. inside c (snd (zip (take 3 ex_welsegs) [100, 110, 120] ! i))"
  by (simp add: ex_welsegs_def ex_compsegs_def inside_def All_less_Suc2)

lemma ex_rows_outside:
  "i < length (zip (take 3 ex_welsegs) [100, 110, 120 :: real]) \<Longrightarrow>
   \<forall>c\<in>set (take 2 ex_compsegs). \<not> inside c (snd (zip (take 3 ex_welsegs) [100, 110, 120] ! i)) \<Longrightarrow>
   TUBINGSEGMENT (fst (zip (take 3 ex_welsegs) [100, 110, 120 :: real] ! i)) = 4"
  by (auto simp: ex_welsegs_def ex_compsegs_def inside_def less_Suc_eq numeral_3_eq_3)

lemma ex_not_in_grid_msg: "not_in_grid_msg 4 = ''Error : Segment 4 is not found inside grid cells''"
  by (simp add: not_in_grid_msg_def str_int_def str_nat.simps digit_char_def)

lemma ex_select_two: "select_lateral (take 2 ex_compsegs) 1 = Inr (take 2 ex_compsegs)"
  by (simp add: select_lateral_def branch_scan.simps ex_compsegs_def loc_slice_def)

theorem merge_first_interval_or_error_witness:
  "(\<exists>merged. map_err (merge_row ''A'' ex_compsegs) (zip (take 3 ex_welsegs) [100, 110, 120])
                = Inr merged \<and> length merged = 3)
   \<and> map_err (merge_row ''A'' (take 2 ex_compsegs)) (zip (take 3 ex_welsegs) [100, 110, 120])
       = Inl (ValueError ''Error : Segment 4 is not found inside grid cells'')
   \<and> get_md [(''A'', ex_welsegs)] [(''A'', take 2 ex_compsegs)] ex_compdat ''A'' [2, 3, 4] 1 ''tubing''
       = Inl (ValueError ''Error : Segment 4 is not found inside grid cells'')"
proof -
  let ?rows = "zip (take 3 ex_welsegs) [100, 110, 120 :: real]"
  let ?e = "ValueError ''Error : Segment 4 is not found inside grid cells''"
  have l: "length ?rows = 3" by (simp add: ex_welsegs_def)
  have one: "\<exists>merged. map_err (merge_row ''A'' ex_compsegs) ?rows = Inr merged \<and> length merged = 3"
    using merge_first_interval_or_error[where rows = ?rows and compsegs = ex_compsegs
        and well = "''A''", THEN conjunct1] ex_rows_inside l by auto
  have bad: "\<exists>i<length ?rows. \<forall>c\<in>set (take 2 ex_compsegs). \<not> inside c (snd (?rows ! i))"
    by (rule exI[of _ 2]) (simp add: ex_welsegs_def ex_compsegs_def inside_def)
  with merge_first_interval_or_error[where rows = ?rows and compsegs = "take 2 ex_compsegs"
        and well = "''A''", THEN conjunct2, THEN conjunct1]
  obtain i where i: "i < length ?rows"
      "\<forall>c\<in>set (take 2 ex_compsegs). \<not> inside c (snd (?rows ! i))"
      "map_err (merge_row ''A'' (take 2 ex_compsegs)) ?rows
         = Inl (ValueError (not_in_grid_msg (TUBINGSEGMENT (fst (?rows ! i)))))"
    by blast
  have two: "map_err (merge_row ''A'' (take 2 ex_compsegs)) ?rows = Inl ?e"
    using i(3) ex_rows_outside[OF i(1,2)] ex_not_in_grid_msg by simp
  have sel: "filter (\<lambda>r. TUBINGSEGMENT r \<in> set [2, 3, 4]) ex_welsegs = take 3 ex_welsegs"
    by (simp add: ex_welsegs_def)
  have md: "measured_depths ''tubing'' (take 3 ex_welsegs) = Inr [100, 110, 120]"
    by (simp add: measured_depths_def ex_welsegs_def)
  have wc: "well_content [(''A'', ex_welsegs)] ''A'' = Some ex_welsegs"
    "well_content [(''A'', take 2 ex_compsegs)] ''A'' = Some (take 2 ex_compsegs)"
    by (simp_all add: well_content_def)
  have three: "get_md [(''A'', ex_welsegs)] [(''A'', take 2 ex_compsegs)] ex_compdat ''A'' [2, 3, 4] 1
          ''tubing'' = Inl ?e"
    using merge_first_interval_or_error[where wt = "[(''A'', ex_welsegs)]" and well = "''A''"
        and content = ex_welsegs and ct = "[(''A'', take 2 ex_compsegs)]"
        and every = "take 2 ex_compsegs" and lateral = 1 and compsegs = "take 2 ex_compsegs"
        and sect = "''tubing''" and segment = "[2, 3, 4]" and depths = "[100, 110, 120]"
        and e = ?e and cdat = ex_compdat, THEN conjunct2, THEN conjunct2, THEN conjunct1]
      two ex_select_two md wc unfolding sel by blast
  show ?thesis using one two three by blast
qed

subsection \<open>The per-well configuration\<close>

lemma interval_segments_ok:
  assumes "int_of a = Some start" "int_of b = Some stop"
  shows "interval_segments int_of [a, b] = Inr (arange start (stop + 1))"
  using assms by (simp add: interval_segments_def py_int_def)

lemma interval_segments_not_unequal:
  "interval_segments int_of content \<noteq> Inl (ValueError unequal_segments_msg)"
  by (auto simp: interval_segments_def py_int_def bind_err_def unequal_segments_msg_def
      split: option.splits)

lemma map_err_py_float_not_unequal:
  "map_err (py_float float_of) xs \<noteq> Inl (ValueError unequal_segments_msg)"
proof (induction xs)
  case Nil
  then show ?case by simp
next
  case (Cons x xs)
  then show ?case
    by (auto simp: py_float_def unequal_segments_msg_def split: option.splits sum.splits)
qed

lemma annulus_not_unequal:
  "(let content = s in
      if content = ''1*'' then Inr [0]
      else (let content = split_on CHR ''-'' content in
            if length content = 2 then interval_segments int_of content
            else Inl (ValueError annulus_interval_msg)))
     \<noteq> Inl (ValueError unequal_segments_msg)"
  using interval_segments_not_unequal[of int_of "split_on CHR ''-'' s"]
  by (simp add: Let_def annulus_interval_msg_def unequal_segments_msg_def)

lemma days_not_unequal:
  "(let content = s in
      if content = ''1*'' then Inr [0]
      else map_err (py_float float_of) (split_on CHR ''-'' content))
     \<noteq> Inl (ValueError unequal_segments_msg)"
  using map_err_py_float_not_unequal[of float_of "split_on CHR ''-'' s"]
  by (simp add: Let_def)

lemma bind_err_not:
  assumes "m \<noteq> Inl e" "\<And>x. f x \<noteq> Inl e"
  shows "bind_err m f \<noteq> Inl e"
  using assms by (cases m) auto

lemma get_info_per_well_checked:
  assumes row: "filter (\<lambda>r. info_LATERAL r = lateral) (filter (\<lambda>r. info_WELL r = well) information)
                  = row # others"
    and tub: "info_TUBINGSEGMENT row \<noteq> ''1*''" "split_on CHR ''-'' (info_TUBINGSEGMENT row) = [t1, t2]"
      "int_of t1 = Some ts" "int_of t2 = Some te"
    and dev: "info_DEVICESEGMENT row \<noteq> ''1*''" "split_on CHR ''-'' (info_DEVICESEGMENT row) = [d1, d2]"
      "int_of d1 = Some ds" "int_of d2 = Some de"
  shows "get_info_per_well int_of float_of information well lateral =
     (if length (arange ts (te + 1)) \<noteq> length (arange ds (de + 1))
      then Inl (ValueError unequal_segments_msg)
      else bind_err
        (let content = info_ANNULUSSEGMENT row in
         if content = ''1*'' then Inr [0]
         else (let content = split_on CHR ''-'' content in
               if length content = 2 then interval_segments int_of content
               else Inl (ValueError annulus_interval_msg)))
      (\<lambda>annulus.
      bind_err
        (let content = info_DAYS row in
         if content = ''1*'' then Inr [0]
         else map_err (py_float float_of) (split_on CHR ''-'' content))
      (\<lambda>my_days.
      Inr (arange ts (te + 1), arange ds (de + 1), annulus, my_days))))"
  unfolding get_info_per_well_def Let_def row
  using tub dev
  by (simp add: interval_segments_ok[OF tub(3,4)] interval_segments_ok[OF dev(3,4)])

text \<open>
  C8. When the row of the well gives the tubing and the device segments as intervals
  \<^verbatim>\<open>a-b\<close> of integers: if the two intervals have different numbers of segments,
  \<^verbatim>\<open>get_info_per_well\<close> raises \<^verbatim>\<open>ValueError\<close> with the message that the numbers differ, and
  so does the processing of the well in \<^verbatim>\<open>main\<close>, whatever the tables and the summary
  file hold, since nothing else is called before; if the numbers are equal, this error is
  not raised.
\<close>

theorem unequal_device_tubing_is_fatal:
  assumes "filter (\<lambda>r. info_LATERAL r = lateral) (filter (\<lambda>r. info_WELL r = well) information)
             = row # others"
    and "info_TUBINGSEGMENT row \<noteq> ''1*''" "split_on CHR ''-'' (info_TUBINGSEGMENT row) = [t1, t2]"
      "int_of t1 = Some ts" "int_of t2 = Some te"
    and "info_DEVICESEGMENT row \<noteq> ''1*''" "split_on CHR ''-'' (info_DEVICESEGMENT row) = [d1, d2]"
      "int_of d1 = Some ds" "int_of d2 = Some de"
  shows "(length (arange ts (te + 1)) \<noteq> length (arange ds (de + 1)) \<longrightarrow>
            get_info_per_well int_of float_of information well lateral
              = Inl (ValueError unequal_segments_msg)
          \<and> main_well int_of float_of annulus_inflow information self well lateral
              = Inl (ValueError unequal_segments_msg))
       \<and> (length (arange ts (te + 1)) = length (arange ds (de + 1)) \<longrightarrow>
            get_info_per_well int_of float_of information well lateral
              \<noteq> Inl (ValueError unequal_segments_msg))"
proof (intro conjI impI)
  assume ne: "length (arange ts (te + 1)) \<noteq> length (arange ds (de + 1))"
  show g: "get_info_per_well int_of float_of information well lateral
              = Inl (ValueError unequal_segments_msg)"
    unfolding get_info_per_well_checked[OF assms] using ne by simp
  show "main_well int_of float_of annulus_inflow information self well lateral
              = Inl (ValueError unequal_segments_msg)"
    unfolding main_well_def g by simp
next
  assume eq: "length (arange ts (te + 1)) = length (arange ds (de + 1))"
  show "get_info_per_well int_of float_of information well lateral
              \<noteq> Inl (ValueError unequal_segments_msg)"
  proof -
    have "bind_err
        (let content = info_ANNULUSSEGMENT row in
         if content = ''1*'' then Inr [0]
         else (let content = split_on CHR ''-'' content in
               if length content = 2 then interval_segments int_of content
               else Inl (ValueError annulus_interval_msg)))
      (\<lambda>annulus.
      bind_err
        (let content = info_DAYS row in
         if content = ''1*'' then Inr [0]
         else map_err (py_float float_of) (split_on CHR ''-'' content))
      (\<lambda>my_days.
      Inr (arange ts (te + 1), arange ds (de + 1), annulus, my_days)))
      \<noteq> Inl (ValueError unequal_segments_msg)"
      by (intro bind_err_not annulus_not_unequal days_not_unequal) simp
    then show ?thesis unfolding get_info_per_well_checked[OF assms] using eq by simp
  qed
qed

lemma ex_int_of_digit:
  "ex_int_of ''2'' = Some 2" "ex_int_of ''4'' = Some 4" "ex_int_of ''5'' = Some 5"
  "ex_int_of ''6'' = Some 6" "ex_int_of ''7'' = Some 7"
  by (simp_all add: ex_int_of_def digit_of_def)

theorem unequal_device_tubing_is_fatal_witness:
  "get_info_per_well ex_int_of ex_float_of (ex_information ''5-6'') ''A'' 1
     = Inl (ValueError unequal_segments_msg)
   \<and> main_well ex_int_of ex_float_of ex_annulus_inflow (ex_information ''5-6'') ex_plot ''A'' 1
     = Inl (ValueError unequal_segments_msg)
   \<and> get_info_per_well ex_int_of ex_float_of (ex_information ''5-7'') ''A'' 1
     \<noteq> Inl (ValueError unequal_segments_msg)"
proof -
  have a: "length (arange 2 (4 + 1)) \<noteq> length (arange 5 (6 + 1))"
    "length (arange 2 (4 + 1)) = length (arange 5 (7 + 1))"
    by (simp_all add: arange_def)
  have one: "get_info_per_well ex_int_of ex_float_of (ex_information ''5-6'') ''A'' 1
       = Inl (ValueError unequal_segments_msg)
     \<and> main_well ex_int_of ex_float_of ex_annulus_inflow (ex_information ''5-6'') ex_plot ''A'' 1
       = Inl (ValueError unequal_segments_msg)"
    using unequal_device_tubing_is_fatal[where information = "ex_information ''5-6''"
        and well = "''A''" and lateral = 1 and row = "hd (ex_information ''5-6'')" and others = "[]"
        and ?t1.0 = "''2''" and ?t2.0 = "''4''" and ts = 2 and te = 4
        and ?d1.0 = "''5''" and ?d2.0 = "''6''" and ds = 5 and de = 6
        and int_of = ex_int_of and float_of = ex_float_of
        and annulus_inflow = ex_annulus_inflow and self = ex_plot, THEN conjunct1] a(1)
    by (simp add: ex_information_def ex_int_of_digit)
  have two: "get_info_per_well ex_int_of ex_float_of (ex_information ''5-7'') ''A'' 1
       \<noteq> Inl (ValueError unequal_segments_msg)"
    using unequal_device_tubing_is_fatal[where information = "ex_information ''5-7''"
        and well = "''A''" and lateral = 1 and row = "hd (ex_information ''5-7'')" and others = "[]"
        and ?t1.0 = "''2''" and ?t2.0 = "''4''" and ts = 2 and te = 4
        and ?d1.0 = "''5''" and ?d2.0 = "''7''" and ds = 5 and de = 7
        and int_of = ex_int_of and float_of = ex_float_of, THEN conjunct2] a(2)
    by (simp add: ex_information_def ex_int_of_digit)
  show ?thesis using one two by blast
qed

subsection \<open>The cumulative gas rate along the tubing\<close>




lemma cum_loop_overflow:
  "length v0 < length r \<Longrightarrow> cum_loop r (length r) v0 = Inl IndexError"
  by (cases "length r") auto

subsection \<open>The keyword columns of a frame\<close>

lemma add_keywords_length:
  "add_keywords f ks df = Inr df' \<Longrightarrow> length df' = length df"
proof (induction ks arbitrary: df)
  case Nil
  then show ?case by simp
next
  case (Cons k ks)
  from Cons.prems obtain val where fv: "f k df = Inr val"
    by (cases "f k df") auto
  show ?case
  proof (cases val)
    case None
    then show ?thesis using Cons fv by simp
  next
    case (Some v)
    then obtain d1 where d1: "set_column k v df = Inr d1" "add_keywords f ks d1 = Inr df'"
      using Cons.prems fv by (cases "set_column k v df") auto
    then show ?thesis using Cons.IH[OF d1(2)] set_column_length[OF d1(1)] by simp
  qed
qed









subsection \<open>Reservoir inflow without annulus\<close>











subsection \<open>A trivial device layer\<close>

lemma tubing_loop_unbound:
  "\<exists>e. tubing_loop self well lateral idxs None = (if idxs = [] then Inr None else Inl e)"
proof (cases idxs)
  case Nil
  then show ?thesis by simp
next
  case (Cons idx rest)
  show ?thesis
  proof (cases "tubing_frame self well lateral None idx")
    case (Inl e)
    then show ?thesis using Cons by auto
  next
    case (Inr frame)
    then show ?thesis using Cons by (auto simp: concat_df_def)
  qed
qed

lemma tubing_loop_unbound_frame:
  assumes "tubing_frame self well lateral None idx = Inr frame"
  shows "tubing_loop self well lateral (idx # rest) None = Inl (UnboundLocalError ''df_all'')"
  using assms by (simp add: concat_df_def)

lemma get_data_trivial_device:
  assumes "length (device_segment self) \<le> 1"
  shows "get_data annulus_inflow self well lateral
           = bind_err (tubing_loop self well lateral (my_days_idx self) None) (\<lambda>df_all.
             bind_err (if length (annulus_segment self) > 1
                       then annulus_loop self well lateral (my_days_idx self) df_all
                       else Inr df_all) (\<lambda>df_all.
             bind_err (case df_all of
                         None \<Rightarrow> Inl (UnboundLocalError ''df_all'')
                       | Some df \<Rightarrow> Inr (convert_cf_kh df)) (\<lambda>df_all.
             bind_err (reservoir_loop annulus_inflow self well lateral (my_days_idx self) df_all)
               (\<lambda>df_all. Inr (convert_cf_kh df_all)))))"
  using assms by (simp add: get_data_def Let_def)

text \<open>
  C10. When the device segments are at most one (the entry \<^verbatim>\<open>1*\<close> gives an array of one
  element), \<^verbatim>\<open>get_data\<close> never returns a table: the device section, the only place that
  assigns \<^verbatim>\<open>df_all\<close> without reading it, is skipped, and every later section reads it. The
  exception is \<^verbatim>\<open>UnboundLocalError\<close> for \<^verbatim>\<open>df_all\<close> when no report step is requested or the
  tubing frame of the first one is built; otherwise it is the exception raised while
  building that frame.
\<close>

theorem trivial_device_layer_always_fails:
  assumes "length (device_segment self) \<le> 1"
  shows "(\<exists>e. get_data annulus_inflow self well lateral = Inl e)
       \<and> (my_days_idx self = []
            \<or> (\<exists>frame. tubing_frame self well lateral None (hd (my_days_idx self)) = Inr frame)
          \<longrightarrow> get_data annulus_inflow self well lateral = Inl (UnboundLocalError ''df_all''))"
proof (intro conjI impI)
  obtain e where e: "tubing_loop self well lateral (my_days_idx self) None
      = (if my_days_idx self = [] then Inr None else Inl e)"
    using tubing_loop_unbound by blast
  show "\<exists>e. get_data annulus_inflow self well lateral = Inl e"
  proof (cases "my_days_idx self = []")
    case True
    then show ?thesis unfolding get_data_trivial_device[OF assms] by simp
  next
    case False
    then show ?thesis unfolding get_data_trivial_device[OF assms] e by simp
  qed
next
  assume a: "my_days_idx self = []
            \<or> (\<exists>frame. tubing_frame self well lateral None (hd (my_days_idx self)) = Inr frame)"
  show "get_data annulus_inflow self well lateral = Inl (UnboundLocalError ''df_all'')"
  proof (cases "my_days_idx self")
    case Nil
    then show ?thesis unfolding get_data_trivial_device[OF assms] by simp
  next
    case (Cons idx rest)
    then obtain frame where "tubing_frame self well lateral None idx = Inr frame"
      using a by auto
    from tubing_loop_unbound_frame[OF this, of rest] show ?thesis
      unfolding get_data_trivial_device[OF assms] Cons by simp
  qed
qed

theorem trivial_device_layer_always_fails_witness:
  "length (device_segment (ex_plot\<lparr>device_segment := [0]\<rparr>)) \<le> 1
   \<and> (\<exists>e. get_data ex_annulus_inflow (ex_plot\<lparr>device_segment := [0]\<rparr>) ''A'' 1 = Inl e)"
  using trivial_device_layer_always_fails[of "ex_plot\<lparr>device_segment := [0]\<rparr>" ex_annulus_inflow "''A''" 1]
  by simp

subsection \<open>The packer table\<close>

lemma packer_step_lengths:
  assumes "packer_step ws i (md, tvd, z) = (md', tvd', z')" "length md = length tvd"
  shows "length md' = length tvd'"
    and "i \<noteq> length ws - 1 \<Longrightarrow> even (length md') = even (length md)"
    and "i = length ws - 1 \<Longrightarrow> even (length md') = odd (length md)"
    and "length z' = length z"
  using assms by (auto simp: packer_step_def split: if_splits)

lemma packer_fold_parity:
  assumes "Suc k \<le> length ws" "2 \<le> length ws"
  shows "\<exists>md tvd z. fold (packer_step ws) [1..<Suc k] ([m0], [t0], z0) = (md, tvd, z)
           \<and> length md = length tvd \<and> (odd (length md) \<longleftrightarrow> Suc k < length ws)"
  using assms
proof (induction k)
  case 0
  then show ?case by simp
next
  case (Suc k)
  then obtain md tvd z where f: "fold (packer_step ws) [1..<Suc k] ([m0], [t0], z0) = (md, tvd, z)"
      and l: "length md = length tvd" and p: "odd (length md) \<longleftrightarrow> Suc k < length ws"
    by auto
  obtain md' tvd' z' where s: "packer_step ws (Suc k) (md, tvd, z) = (md', tvd', z')"
    by (cases "packer_step ws (Suc k) (md, tvd, z)") auto
  have step: "fold (packer_step ws) [1..<Suc (Suc k)] ([m0], [t0], z0) = (md', tvd', z')"
    using f s by simp
  have odd_md: "odd (length md)" using p Suc.prems by simp
  have "odd (length md') \<longleftrightarrow> Suc (Suc k) < length ws"
  proof (cases "Suc k = length ws - 1")
    case True
    then show ?thesis using packer_step_lengths(3)[OF s l] odd_md by auto
  next
    case False
    then have "Suc (Suc k) < length ws" using Suc.prems by arith
    then show ?thesis using packer_step_lengths(2)[OF s l False] odd_md by simp
  qed
  then show ?case using step packer_step_lengths(1)[OF s l] by blast
qed

lemma packer_table_even:
  assumes "length annulus > 1" "well_content wt well = Some content"
    and "length (filter (\<lambda>r. TUBINGSEGMENT r \<in> set annulus) content) \<ge> 2"
  shows "\<exists>pk zones. get_packer wt well annulus = Inr (Some (Frame pk, Frame zones))
           \<and> even (length pk)"
proof -
  let ?ws = "filter (\<lambda>r. TUBINGSEGMENT r \<in> set annulus) content"
  obtain first others where ws: "?ws = first # others"
    using assms(3) by (cases ?ws) auto
  obtain k where k: "length ?ws = Suc k" using ws by simp
  have "Suc k \<le> length ?ws" using k by simp
  from packer_fold_parity[OF this assms(3), of "TUBINGMD first" "TUBINGTVD first" "replicate (length ?ws) 1"]
  obtain md tvd z where
    f: "fold (packer_step ?ws) [1..<length ?ws]
          ([TUBINGMD first], [TUBINGTVD first], replicate (length ?ws) 1) = (md, tvd, z)"
    and l: "length md = length tvd" and p: "even (length md)"
    using k by auto
  have "get_packer wt well annulus
      = Inr (Some (Frame (zip md tvd),
                   Frame (map (\<lambda>(r, z). \<lparr>z_SEGMENT = TUBINGSEGMENT r, z_MD = TUBINGMD r,
                                         ANNULUS_ZONE = z\<rparr>) (zip ?ws z))))"
    unfolding get_packer_def using assms(1,2) ws f by (simp add: Let_def)
  moreover have "even (length (zip md tvd))" using l p by simp
  ultimately show ?thesis by blast
qed

text \<open>
  C5 fails on the code. The well \<^verbatim>\<open>A\<close> has the segments 2 to 7; with the annulus entry
  \<^verbatim>\<open>7-8\<close> the selection has two segments, so the zones are computed, and one row of
  \<^verbatim>\<open>WELSEGS\<close> matches. The loop over the rows 1 and following is not entered, the depth of
  the last row is never added, and the packer table has one row.
\<close>

theorem packer_table_of_one_row_is_odd:
  "length (arange 7 (8 + 1)) = 2
   \<and> get_packer [(''A'', ex_welsegs)] ''A'' (arange 7 (8 + 1))
       = Inr (Some (Frame [(120.1, 92)],
                    Frame [\<lparr>z_SEGMENT = 7, z_MD = 120.1, ANNULUS_ZONE = 1\<rparr>]))
   \<and> odd (length [(120.1 :: real, 92 :: real)])"
  by (simp add: arange_def get_packer_def well_content_def ex_welsegs_def upto.simps)

subsection \<open>The rows of a lateral\<close>

lemma ex_spec_branches: "spec_branches ex_two_laterals = [(0, 3), (4, 7)]"
  by (simp add: spec_branches_def ex_two_laterals_def closes_branch_def upt_rec[of _ 8] upt_rec[of _ "Suc _"]
     flip: numeral_eq_Suc)

lemma ex_branch_scan: "branch_scan ex_two_laterals 1 0 0 0 None = (0, Some 3)"
  by (simp add: branch_scan.simps ex_two_laterals_def)

text \<open>
  The walk of \<^verbatim>\<open>get_md\<close> finds the boundaries that the specification describes: for a
  lateral number within the number of branches, it stops with the first and the last index
  of that branch. The selection then returns the rows of the branch and, when there is
  one, the row after its last.
\<close>

lemma spec_split_no_close:
  "\<forall>i\<in>set idxs. \<not> closes_branch compsegs i \<Longrightarrow>
     spec_split compsegs a idxs = (if compsegs = [] then [] else [(a, length compsegs - 1)])"
  by (induction idxs) auto

lemma branch_scan_finds_branch:
  "idx < length compsegs \<Longrightarrow> i_lateral < lateral \<Longrightarrow>
   lateral \<le> i_lateral + int (length (spec_split compsegs a_row [idx..<length compsegs])) \<Longrightarrow>
   branch_scan compsegs lateral idx i_lateral a_row zrow
     = (fst (spec_split compsegs a_row [idx..<length compsegs] ! nat (lateral - i_lateral - 1)),
        Some (snd (spec_split compsegs a_row [idx..<length compsegs] ! nat (lateral - i_lateral - 1))))"
proof (induction compsegs lateral idx i_lateral a_row zrow rule: branch_scan.induct)
  case (1 compsegs lateral idx i_lateral a_row zrow)
  let ?n = "length compsegs"
  have upt: "[idx..<?n] = idx # [Suc idx..<?n]" using "1.prems"(1) by (simp add: upt_rec)
  show ?case
  proof (cases "int idx < int ?n - 3")
    case far: True
    then have far': "idx + 3 < ?n" by simp
    then have nxt: "Suc idx < ?n" by simp
    show ?thesis
    proof (cases "closes_branch compsegs idx")
      case True
      then have c: "cs_STARTMD (compsegs ! (idx + 1)) < cs_ENDMD (compsegs ! idx)
          \<and> cs_STARTMD (compsegs ! (idx + 2)) < cs_ENDMD (compsegs ! idx)
          \<and> cs_STARTMD (compsegs ! (idx + 3)) < cs_ENDMD (compsegs ! idx)"
        by (simp add: closes_branch_def)
      have bs: "spec_split compsegs a_row [idx..<?n]
          = (a_row, idx) # spec_split compsegs (idx + 1) [Suc idx..<?n]"
        using True upt by simp
      show ?thesis
      proof (cases "i_lateral + 1 = lateral")
        case True
        then show ?thesis
          using "1.prems"(1) far c bs
          by (subst branch_scan.simps) (simp add: Let_def)
      next
        case False
        then have lt: "i_lateral + 1 < lateral" using "1.prems"(2) by simp
        have le: "lateral \<le> (i_lateral + 1)
            + int (length (spec_split compsegs (idx + 1) [Suc idx..<?n]))"
          using "1.prems"(3) bs by simp
        have ih: "branch_scan compsegs lateral (Suc idx) (i_lateral + 1) (idx + 1) (Some idx)
            = (fst (spec_split compsegs (idx + 1) [Suc idx..<?n] ! nat (lateral - (i_lateral + 1) - 1)),
               Some (snd (spec_split compsegs (idx + 1) [Suc idx..<?n]
                           ! nat (lateral - (i_lateral + 1) - 1))))"
          using "1.IH"(1)[OF "1.prems"(1) refl far refl refl refl _ False nxt lt le] c by simp
        have k: "nat (lateral - i_lateral - 1) = Suc (nat (lateral - (i_lateral + 1) - 1))"
          using lt by simp
        have "branch_scan compsegs lateral idx i_lateral a_row zrow
            = branch_scan compsegs lateral (Suc idx) (i_lateral + 1) (idx + 1) (Some idx)"
          using "1.prems"(1) far c False
          by (subst branch_scan.simps) (simp add: Let_def)
        then show ?thesis unfolding ih bs k by simp
      qed
    next
      case False
      then have c: "\<not> (cs_STARTMD (compsegs ! (idx + 1)) < cs_ENDMD (compsegs ! idx)
          \<and> cs_STARTMD (compsegs ! (idx + 2)) < cs_ENDMD (compsegs ! idx)
          \<and> cs_STARTMD (compsegs ! (idx + 3)) < cs_ENDMD (compsegs ! idx))"
        using far' by (simp add: closes_branch_def)
      have bs: "spec_split compsegs a_row [idx..<?n] = spec_split compsegs a_row [Suc idx..<?n]"
        using False upt by simp
      have le: "lateral \<le> i_lateral + int (length (spec_split compsegs a_row [Suc idx..<?n]))"
        using "1.prems"(3) bs by simp
      have ih: "branch_scan compsegs lateral (Suc idx) i_lateral a_row zrow
          = (fst (spec_split compsegs a_row [Suc idx..<?n] ! nat (lateral - i_lateral - 1)),
             Some (snd (spec_split compsegs a_row [Suc idx..<?n] ! nat (lateral - i_lateral - 1))))"
        using "1.IH"(2)[OF "1.prems"(1) refl far refl refl refl _ nxt "1.prems"(2) le] c by simp
      have "branch_scan compsegs lateral idx i_lateral a_row zrow
          = branch_scan compsegs lateral (Suc idx) i_lateral a_row zrow"
        using "1.prems"(1) far c
        by (subst branch_scan.simps) (auto simp add: Let_def)
      then show ?thesis unfolding ih bs by simp
    qed
  next
    case near: False
    have "\<forall>i\<in>set [idx..<?n]. \<not> closes_branch compsegs i"
      using near by (auto simp: closes_branch_def)
    then have bs: "spec_split compsegs a_row [idx..<?n] = [(a_row, ?n - 1)]"
      using spec_split_no_close[of "[idx..<?n]" compsegs a_row] "1.prems"(1) by auto
    then have l: "lateral = i_lateral + 1" using "1.prems"(2,3) by simp
    show ?thesis
      using "1.prems"(1) near l bs
      by (subst branch_scan.simps) (simp add: Let_def)
  qed
qed

lemma select_lateral_extra_row:
  assumes "1 \<le> lateral" "lateral \<le> int (length (spec_branches compsegs))"
  shows "\<exists>a z. spec_branches compsegs ! nat (lateral - 1) = (a, z)
           \<and> spec_select compsegs lateral = Some (drop a (take (z + 1) compsegs))
           \<and> select_lateral compsegs lateral = Inr (drop a (take (z + 2) compsegs))"
proof -
  obtain a z where az: "spec_branches compsegs ! nat (lateral - 1) = (a, z)"
    by (cases "spec_branches compsegs ! nat (lateral - 1)") auto
  have ne: "0 < length compsegs"
  proof (rule ccontr)
    assume "\<not> 0 < length compsegs"
    then have "spec_branches compsegs = []" by (simp add: spec_branches_def)
    then show False using assms by simp
  qed
  have "branch_scan compsegs lateral 0 0 0 None
      = (fst (spec_split compsegs 0 [0..<length compsegs] ! nat (lateral - 0 - 1)),
         Some (snd (spec_split compsegs 0 [0..<length compsegs] ! nat (lateral - 0 - 1))))"
    by (rule branch_scan_finds_branch[OF ne]) (use assms in \<open>simp_all add: spec_branches_def\<close>)
  then have b: "branch_scan compsegs lateral 0 0 0 None = (a, Some z)"
    using az by (simp add: spec_branches_def)
  have "spec_select compsegs lateral = Some (drop a (take (z + 1) compsegs))"
    using assms az by (simp add: spec_select_def Let_def)
  moreover have "select_lateral compsegs lateral = Inr (drop a (take (z + 2) compsegs))"
    using b by (simp add: select_lateral_def loc_slice_def)
  ultimately show ?thesis using az by blast
qed

text \<open>
  C4 fails on the code. The eight completion rows are two laterals, the rows 0 to 3 and the
  rows 4 to 7: entry 3 is the only one followed by three start depths below its end depth.
  For the lateral 1 the walk stops with \<open>a_row = 0\<close> and \<open>zrow = 3\<close>, and the selection
  \<^verbatim>\<open>compsegs.loc[a_row : zrow + 1, :]\<close>, which includes the label \<open>zrow + 1\<close>, returns the five
  rows 0 to 4: row 4, the first cell of the second lateral, is part of the result.
\<close>

theorem lateral_slice_takes_row_of_next_branch:
  "spec_branches ex_two_laterals = [(0, 3), (4, 7)]
   \<and> spec_select ex_two_laterals 1 = Some (take 4 ex_two_laterals)
   \<and> select_lateral ex_two_laterals 1 = Inr (take 5 ex_two_laterals)
   \<and> ex_two_laterals ! 4 \<in> set (take 5 ex_two_laterals)
   \<and> ex_two_laterals ! 4 \<notin> set (take 4 ex_two_laterals)"
proof (intro conjI)
  show "spec_branches ex_two_laterals = [(0, 3), (4, 7)]" by (rule ex_spec_branches)
  show "spec_select ex_two_laterals 1 = Some (take 4 ex_two_laterals)"
    by (simp add: spec_select_def ex_spec_branches)
  show "select_lateral ex_two_laterals 1 = Inr (take 5 ex_two_laterals)"
    by (simp add: select_lateral_def ex_branch_scan loc_slice_def)
  show "ex_two_laterals ! 4 \<in> set (take 5 ex_two_laterals)"
    by (simp add: ex_two_laterals_def)
  show "ex_two_laterals ! 4 \<notin> set (take 4 ex_two_laterals)"
    by (simp add: ex_two_laterals_def)
qed

subsection \<open>The static properties\<close>

lemma find_filter_conv:
  "find P xs = (case filter P xs of [] \<Rightarrow> None | x # rest \<Rightarrow> Some x)"
  by (induction xs) auto

lemma merge_left_single:
  assumes "\<forall>w\<in>set welsegs. length (filter (same_cell w) compdat) \<le> 1"
  shows "merge_left welsegs compdat
           = map (\<lambda>w. case find (same_cell w) compdat of
                         None \<Rightarrow> joined w NaN NaN
                       | Some c \<Rightarrow> joined w (cd_CF c) (cd_KH c)) welsegs"
  using assms
proof (induction welsegs)
  case Nil
  then show ?case by (simp add: merge_left_def)
next
  case (Cons w ws)
  have f: "filter (\<lambda>c. cd_I c = s_I w \<and> cd_J c = s_J w \<and> cd_K c = s_K w) compdat
             = filter (same_cell w) compdat"
    by (rule filter_cong[OF refl]) (simp add: same_cell_def)
  have one: "length (filter (same_cell w) compdat) \<le> 1" using Cons.prems by simp
  have hd: "(case filter (same_cell w) compdat of
               [] \<Rightarrow> [joined w NaN NaN]
             | matches \<Rightarrow> map (\<lambda>c. joined w (cd_CF c) (cd_KH c)) matches)
          = [case find (same_cell w) compdat of
               None \<Rightarrow> joined w NaN NaN
             | Some c \<Rightarrow> joined w (cd_CF c) (cd_KH c)]"
  proof (cases "filter (same_cell w) compdat")
    case Nil
    then show ?thesis by (simp add: find_filter_conv)
  next
    case (Cons c rest)
    then have "rest = []" using one by simp
    then show ?thesis using Cons by (simp add: find_filter_conv)
  qed
  have tl: "merge_left ws compdat
           = map (\<lambda>w. case find (same_cell w) compdat of
                         None \<Rightarrow> joined w NaN NaN
                       | Some c \<Rightarrow> joined w (cd_CF c) (cd_KH c)) ws"
    using Cons by simp
  have "merge_left (w # ws) compdat
          = (case filter (same_cell w) compdat of
               [] \<Rightarrow> [joined w NaN NaN]
             | matches \<Rightarrow> map (\<lambda>c. joined w (cd_CF c) (cd_KH c)) matches)
            @ merge_left ws compdat"
    by (simp add: merge_left_def f)
  then show ?case unfolding hd tl by simp
qed

lemma merge_left_row:
  assumes "\<forall>w\<in>set welsegs. length (filter (same_cell w) compdat) \<le> 1" "i < length welsegs"
  shows "m_Segment (merge_left welsegs compdat ! i) = Segment (welsegs ! i)"
    and "(\<forall>c\<in>set compdat. \<not> same_cell (welsegs ! i) c) \<Longrightarrow>
           m_CF (merge_left welsegs compdat ! i) = NaN \<and> m_KH (merge_left welsegs compdat ! i) = NaN"
    and "c \<in> set compdat \<Longrightarrow> same_cell (welsegs ! i) c \<Longrightarrow>
           m_CF (merge_left welsegs compdat ! i) = cd_CF c
           \<and> m_KH (merge_left welsegs compdat ! i) = cd_KH c"
proof -
  let ?w = "welsegs ! i"
  have r: "merge_left welsegs compdat ! i
             = (case find (same_cell ?w) compdat of
                  None \<Rightarrow> joined ?w NaN NaN
                | Some c \<Rightarrow> joined ?w (cd_CF c) (cd_KH c))"
    unfolding merge_left_single[OF assms(1)] using assms(2) by simp
  show "m_Segment (merge_left welsegs compdat ! i) = Segment ?w"
    unfolding r by (simp add: joined_def split: option.splits)
  show "m_CF (merge_left welsegs compdat ! i) = NaN \<and> m_KH (merge_left welsegs compdat ! i) = NaN"
    if "\<forall>c\<in>set compdat. \<not> same_cell ?w c"
  proof -
    have "find (same_cell ?w) compdat = None" using that by (simp add: find_None_iff)
    then show ?thesis unfolding r by (simp add: joined_def)
  qed
  show "m_CF (merge_left welsegs compdat ! i) = cd_CF c
           \<and> m_KH (merge_left welsegs compdat ! i) = cd_KH c"
    if c: "c \<in> set compdat" "same_cell ?w c"
  proof -
    have "c \<in> set (filter (same_cell ?w) compdat)" using c by simp
    moreover have "length (filter (same_cell ?w) compdat) \<le> 1" using assms by simp
    ultimately have "filter (same_cell ?w) compdat = [c]"
      by (cases "filter (same_cell ?w) compdat") auto
    then have "find (same_cell ?w) compdat = Some c" by (simp add: find_filter_conv)
    then show ?thesis unfolding r by (simp add: joined_def)
  qed
qed

lemma merge_left_length:
  assumes "\<forall>w\<in>set welsegs. length (filter (same_cell w) compdat) \<le> 1"
  shows "length (merge_left welsegs compdat) = length welsegs"
  unfolding merge_left_single[OF assms] by simp

lemma astype_or_default_text:
  "\<exists>c\<in>set cells. is_text c \<Longrightarrow> astype_or_default cells = replicate (length cells) (Num 0.0000000001)"
proof -
  assume "\<exists>c\<in>set cells. is_text c"
  then obtain c where c: "find is_text cells = Some c"
    by (cases "find is_text cells") (auto simp: find_None_iff)
  then have "is_text c" by (auto simp: find_Some_iff)
  then obtain s where "c = Text s" by (cases c) (auto simp: is_text_def)
  then show ?thesis using c by (simp add: astype_or_default_def astype_float64_def)
qed

lemma astype_or_default_numeric:
  "\<forall>c\<in>set cells. \<not> is_text c \<Longrightarrow> astype_or_default cells = cells"
proof -
  assume "\<forall>c\<in>set cells. \<not> is_text c"
  then have "find is_text cells = None" by (simp add: find_None_iff)
  then show ?thesis by (simp add: astype_or_default_def astype_float64_def)
qed

lemma astype_or_default_length: "length (astype_or_default cells) = length cells"
  by (cases "\<exists>c\<in>set cells. is_text c")
     (simp_all add: astype_or_default_text astype_or_default_numeric)

lemma astype_or_default_nth:
  "i < length cells \<Longrightarrow>
     astype_or_default cells ! i
       = (if \<exists>c\<in>set cells. is_text c then Num 0.0000000001 else cells ! i)"
  by (cases "\<exists>c\<in>set cells. is_text c")
     (simp_all add: astype_or_default_text astype_or_default_numeric)

lemma convert_cf_kh_length: "length (convert_cf_kh df) = length df"
  by (simp add: convert_cf_kh_def Let_def astype_or_default_length)

lemma convert_cf_kh_row:
  assumes "i < length df"
  shows "CF (convert_cf_kh df ! i)
           = (if \<exists>r\<in>set df. is_text (CF r) then Num 0.0000000001 else CF (df ! i))"
    and "KH (convert_cf_kh df ! i)
           = (if \<exists>r\<in>set df. is_text (KH r) then Num 0.0000000001 else KH (df ! i))"
    and "SEGMENT (convert_cf_kh df ! i) = SEGMENT (df ! i)"
proof -
  let ?d1 = "map (\<lambda>(r, v). r\<lparr>CF := v\<rparr>) (zip df (astype_or_default (map CF df)))"
  have l1: "length ?d1 = length df" by (simp add: astype_or_default_length)
  have c: "convert_cf_kh df = map (\<lambda>(r, v). r\<lparr>KH := v\<rparr>) (zip ?d1 (astype_or_default (map KH ?d1)))"
    by (simp add: convert_cf_kh_def Let_def)
  have kh1: "map KH ?d1 = map KH df"
    by (simp add: list_eq_iff_nth_eq astype_or_default_length)
  have row: "convert_cf_kh df ! i
      = (df ! i)\<lparr>CF := astype_or_default (map CF df) ! i, KH := astype_or_default (map KH df) ! i\<rparr>"
    unfolding c kh1 using assms by (simp add: astype_or_default_length)
  have ex: "(\<exists>c\<in>set (map CF df). is_text c) \<longleftrightarrow> (\<exists>r\<in>set df. is_text (CF r))"
    "(\<exists>c\<in>set (map KH df). is_text c) \<longleftrightarrow> (\<exists>r\<in>set df. is_text (KH r))"
    by auto
  show "CF (convert_cf_kh df ! i)
           = (if \<exists>r\<in>set df. is_text (CF r) then Num 0.0000000001 else CF (df ! i))"
    unfolding row using assms astype_or_default_nth[of i "map CF df"] ex(1) by simp
  show "KH (convert_cf_kh df ! i)
           = (if \<exists>r\<in>set df. is_text (KH r) then Num 0.0000000001 else KH (df ! i))"
    unfolding row using assms astype_or_default_nth[of i "map KH df"] ex(2) by simp
  show "SEGMENT (convert_cf_kh df ! i) = SEGMENT (df ! i)"
    unfolding row by simp
qed

lemma convert_cf_kh_no_text:
  assumes "r \<in> set (convert_cf_kh df)"
  shows "\<not> is_text (CF r) \<and> \<not> is_text (KH r)"
proof -
  from assms obtain i where i: "i < length df" "convert_cf_kh df ! i = r"
    by (auto simp: in_set_conv_nth convert_cf_kh_length)
  have "\<not> is_text (CF (convert_cf_kh df ! i))"
    unfolding convert_cf_kh_row(1)[OF i(1)] using i(1) by (auto simp: is_text_def)
  moreover have "\<not> is_text (KH (convert_cf_kh df ! i))"
    unfolding convert_cf_kh_row(2)[OF i(1)] using i(1) by (auto simp: is_text_def)
  ultimately show ?thesis using i(2) by simp
qed

lemma get_data_converted:
  assumes "get_data annulus_inflow self well lateral = Inr out"
  shows "\<exists>df. out = convert_cf_kh df"
proof -
  from assms obtain a where a: "(if 1 < length (device_segment self)
        then device_loop self well lateral 0 (my_days_idx self) None else Inr None) = Inr a"
    unfolding get_data_def Let_def
    by (cases "if 1 < length (device_segment self)
        then device_loop self well lateral 0 (my_days_idx self) None else Inr None") auto
  from assms a obtain b where b: "tubing_loop self well lateral (my_days_idx self) a = Inr b"
    unfolding get_data_def Let_def
    by (cases "tubing_loop self well lateral (my_days_idx self) a") auto
  from assms a b obtain c where c: "(if 1 < length (annulus_segment self)
        then annulus_loop self well lateral (my_days_idx self) b else Inr b) = Inr c"
    unfolding get_data_def Let_def
    by (cases "if 1 < length (annulus_segment self)
        then annulus_loop self well lateral (my_days_idx self) b else Inr b") auto
  from assms a b c obtain d where d: "c = Some d"
    unfolding get_data_def Let_def by (cases c) auto
  from assms a b c d obtain e where
    e: "reservoir_loop annulus_inflow self well lateral (my_days_idx self) (convert_cf_kh d) = Inr e"
    unfolding get_data_def Let_def
    by (cases "reservoir_loop annulus_inflow self well lateral (my_days_idx self) (convert_cf_kh d)")
      auto
  have "out = convert_cf_kh e" using assms a b c d e unfolding get_data_def Let_def by simp
  then show ?thesis by blast
qed

text \<open>
  C9, as amended. The left join of \<^verbatim>\<open>get_md\<close>, when no cell has two rows of static
  properties, gives one row for each segment row, in order, with the \<^verbatim>\<open>CF\<close> and \<^verbatim>\<open>KH\<close> of
  the \<^verbatim>\<open>COMPDAT\<close> row of the same cell, and with the missing value, not \<open>0.0000000001\<close>,
  when no row has that cell. Each of the two conversions of \<^verbatim>\<open>get_data\<close> changes a column
  as a whole: if some row of the table then holds a text in the column, every row gets
  \<open>0.0000000001\<close>, and otherwise every row keeps its value, a missing value included. The
  table returned is the result of such a conversion and holds no text in the two columns.
\<close>

theorem static_properties_joined_or_defaulted:
  "((\<forall>w\<in>set welsegs. length (filter (same_cell w) compdat) \<le> 1) \<and> i < length welsegs \<longrightarrow>
        length (merge_left welsegs compdat) = length welsegs
      \<and> m_Segment (merge_left welsegs compdat ! i) = Segment (welsegs ! i)
      \<and> ((\<forall>c\<in>set compdat. \<not> same_cell (welsegs ! i) c) \<longrightarrow>
            m_CF (merge_left welsegs compdat ! i) = NaN
          \<and> m_KH (merge_left welsegs compdat ! i) = NaN)
      \<and> (\<forall>c\<in>set compdat. same_cell (welsegs ! i) c \<longrightarrow>
            m_CF (merge_left welsegs compdat ! i) = cd_CF c
          \<and> m_KH (merge_left welsegs compdat ! i) = cd_KH c))
   \<and> (j < length df \<longrightarrow>
        CF (convert_cf_kh df ! j)
          = (if \<exists>r\<in>set df. is_text (CF r) then Num 0.0000000001 else CF (df ! j))
      \<and> KH (convert_cf_kh df ! j)
          = (if \<exists>r\<in>set df. is_text (KH r) then Num 0.0000000001 else KH (df ! j))
      \<and> SEGMENT (convert_cf_kh df ! j) = SEGMENT (df ! j))
   \<and> (get_data annulus_inflow self well lateral = Inr out \<longrightarrow>
        (\<exists>df_all. out = convert_cf_kh df_all)
      \<and> (\<forall>r\<in>set out. \<not> is_text (CF r) \<and> \<not> is_text (KH r)))"
proof (intro conjI impI)
  assume a: "(\<forall>w\<in>set welsegs. length (filter (same_cell w) compdat) \<le> 1) \<and> i < length welsegs"
  then have u: "\<forall>w\<in>set welsegs. length (filter (same_cell w) compdat) \<le> 1"
    and i: "i < length welsegs" by auto
  show "length (merge_left welsegs compdat) = length welsegs"
    by (rule merge_left_length[OF u])
  show "m_Segment (merge_left welsegs compdat ! i) = Segment (welsegs ! i)"
    by (rule merge_left_row(1)[OF u i])
  show "m_CF (merge_left welsegs compdat ! i) = NaN"
    if "\<forall>c\<in>set compdat. \<not> same_cell (welsegs ! i) c"
    using merge_left_row(2)[OF u i that] by simp
  show "m_KH (merge_left welsegs compdat ! i) = NaN"
    if "\<forall>c\<in>set compdat. \<not> same_cell (welsegs ! i) c"
    using merge_left_row(2)[OF u i that] by simp
  show "\<forall>c\<in>set compdat. same_cell (welsegs ! i) c \<longrightarrow>
            m_CF (merge_left welsegs compdat ! i) = cd_CF c
          \<and> m_KH (merge_left welsegs compdat ! i) = cd_KH c"
    using merge_left_row(3)[OF u i] by blast
next
  assume j: "j < length df"
  show "CF (convert_cf_kh df ! j)
          = (if \<exists>r\<in>set df. is_text (CF r) then Num 0.0000000001 else CF (df ! j))"
    by (rule convert_cf_kh_row(1)[OF j])
  show "KH (convert_cf_kh df ! j)
          = (if \<exists>r\<in>set df. is_text (KH r) then Num 0.0000000001 else KH (df ! j))"
    by (rule convert_cf_kh_row(2)[OF j])
  show "SEGMENT (convert_cf_kh df ! j) = SEGMENT (df ! j)"
    by (rule convert_cf_kh_row(3)[OF j])
next
  assume g: "get_data annulus_inflow self well lateral = Inr out"
  from get_data_converted[OF g] obtain df_all where o: "out = convert_cf_kh df_all" by blast
  show "\<exists>df_all. out = convert_cf_kh df_all" using o by blast
  show "\<forall>r\<in>set out. \<not> is_text (CF r) \<and> \<not> is_text (KH r)"
    unfolding o using convert_cf_kh_no_text by blast
qed

lemma ex_get_data_static_cells:
  "map_sum id (map static_cells) (get_data ex_annulus_inflow ex_plot ''A'' 1)
     = Inr [(5, Num 5, Num 0.0000000001), (6, Num 6, Num 0.0000000001), (7, NaN, Num 0.0000000001),
            (2, Num 5, Num 0.0000000001), (3, Num 6, Num 0.0000000001), (4, NaN, Num 0.0000000001),
            (2, Num 5, Num 0.0000000001), (3, Num 6, Num 0.0000000001), (4, NaN, Num 0.0000000001)]"
  by code_simp

theorem static_properties_joined_or_defaulted_witness:
  "m_CF (merge_left [ex_seg_row] ex_compdat ! 0) = NaN
   \<and> CF (convert_cf_kh ex_text_rows ! 0) = Num 5
   \<and> KH (convert_cf_kh ex_text_rows ! 0) = Num 0.0000000001
   \<and> (\<exists>out. get_data ex_annulus_inflow ex_plot ''A'' 1 = Inr out
          \<and> (\<forall>r\<in>set out. \<not> is_text (CF r) \<and> \<not> is_text (KH r)))"
proof -
  have u: "\<forall>w\<in>set [ex_seg_row]. length (filter (same_cell w) ex_compdat) \<le> 1"
    by (simp add: same_cell_def ex_seg_row_def ex_compdat_def)
  have n: "\<forall>c\<in>set ex_compdat. \<not> same_cell ([ex_seg_row] ! 0) c"
    by (simp add: same_cell_def ex_seg_row_def ex_compdat_def)
  have one: "m_CF (merge_left [ex_seg_row] ex_compdat ! 0) = NaN"
    using static_properties_joined_or_defaulted[where welsegs = "[ex_seg_row]"
        and compdat = ex_compdat and i = 0, THEN conjunct1] u n by simp
  have t: "\<not> (\<exists>r\<in>set ex_text_rows. is_text (CF r))" "\<exists>r\<in>set ex_text_rows. is_text (KH r)"
    by (simp_all add: ex_text_rows_def rates_row_def is_text_def)
  have two: "CF (convert_cf_kh ex_text_rows ! 0) = Num 5
      \<and> KH (convert_cf_kh ex_text_rows ! 0) = Num 0.0000000001"
    using static_properties_joined_or_defaulted[where df = ex_text_rows and j = 0,
        THEN conjunct2, THEN conjunct1] t
    by (simp add: ex_text_rows_def rates_row_def)
  obtain out where o: "get_data ex_annulus_inflow ex_plot ''A'' 1 = Inr out"
    using ex_get_data_static_cells by (cases "get_data ex_annulus_inflow ex_plot ''A'' 1") auto
  have three: "\<forall>r\<in>set out. \<not> is_text (CF r) \<and> \<not> is_text (KH r)"
    using static_properties_joined_or_defaulted[where annulus_inflow = ex_annulus_inflow
        and self = ex_plot and well = "''A''" and lateral = 1 and out = out,
        THEN conjunct2, THEN conjunct2] o by blast
  show ?thesis using one two o three by blast
qed

text \<open>
  C9 as stated fails. In the table of the example, the rows of the segments 7 and 4 lie in
  the cell \<open>(3, 1, 1)\<close>, which has no static properties: their \<^verbatim>\<open>CF\<close> is the missing value,
  not \<open>0.0000000001\<close>. The rows of the segments 5 and 2 lie in the cell \<open>(1, 1, 1)\<close>, whose
  \<^verbatim>\<open>KH\<close> is the number 50: their \<^verbatim>\<open>KH\<close> is \<open>0.0000000001\<close>, because the cell \<open>(2, 1, 1)\<close> of
  other rows has the text \<^verbatim>\<open>1*\<close>.
\<close>

theorem static_properties_counterexample:
  "map_sum id (map static_cells) (get_data ex_annulus_inflow ex_plot ''A'' 1)
     = Inr [(5, Num 5, Num 0.0000000001), (6, Num 6, Num 0.0000000001), (7, NaN, Num 0.0000000001),
            (2, Num 5, Num 0.0000000001), (3, Num 6, Num 0.0000000001), (4, NaN, Num 0.0000000001),
            (2, Num 5, Num 0.0000000001), (3, Num 6, Num 0.0000000001), (4, NaN, Num 0.0000000001)]
   \<and> NaN \<noteq> Num 0.0000000001
   \<and> cd_KH (ex_compdat ! 0) = Num 50
   \<and> Num 50 \<noteq> Num 0.0000000001"
  using ex_get_data_static_cells by (simp add: ex_compdat_def)

subsection \<open>A complete run\<close>

text \<open>
  The table of the example, by evaluation of \<^verbatim>\<open>get_data\<close>: the gas rate of the tubing rows
  is the sum of the device rows from the same position on, and the rates of the reservoir
  rows are the differences of the tubing rows.
\<close>

lemma ex_get_data_rates:
  "map_sum id (map rate_cells) (get_data ex_annulus_inflow ex_plot ''A'' 1)
     = Inr [(''Device'', 5, Some 3, Some 100), (''Device'', 6, Some 0, Some 20),
            (''Device'', 7, Some 7, Some 3),
            (''Tubing'', 2, Some 10, Some 123), (''Tubing'', 3, Some 7, Some 23),
            (''Tubing'', 4, Some 7, Some 3),
            (''Reservoir'', 2, Some 3, Some 100), (''Reservoir'', 3, Some 0, Some 20),
            (''Reservoir'', 4, Some 7, Some 3)]"
  by code_simp

text \<open>
  The same run with the device entry \<^verbatim>\<open>1*\<close>, and with an annulus interval that is empty.
\<close>

lemma ex_trivial_device_error:
  "get_data ex_annulus_inflow (ex_plot\<lparr>device_segment := [0]\<rparr>) ''A'' 1
     = Inl (UnboundLocalError ''df_all'')"
  by code_simp

lemma ex_empty_annulus_error:
  "get_data ex_annulus_inflow (ex_plot\<lparr>annulus_segment := []\<rparr>) ''A'' 1 = Inl (KeyError ''MD'')"
  by code_simp

end
